theory Spec2Isabelle
  imports
    Main
    "HOL-Library.Char_ord"
    "HOL-Library.List_Lexorder"
    "HOL-Library.Product_Lexorder"
    "HOL-Library.Sublist"
    "HOL-Library.Multiset"
begin

section \<open>Python strings and containers\<close>

text \<open>
  Python text is modelled as \<^typ>\<open>string\<close>. \<open>sorted\<close> on text and on tuples of text is
  \<^const>\<open>sort\<close> for the lexicographic order on lists of characters and on pairs.
  Every call of \<open>str.replace\<close> in \<open>mypy_protobuf.py\<close> replaces a one-character pattern.
\<close>

definition replace :: "char \<Rightarrow> string \<Rightarrow> string \<Rightarrow> string" where
  "replace old new s = concat (map (\<lambda>c. if c = old then new else [c]) s)"

fun join :: "string \<Rightarrow> string list \<Rightarrow> string" where
  "join sep [] = []"
| "join sep [x] = x"
| "join sep (x # y # ys) = x @ sep @ join sep (y # ys)"

definition endswith :: "string \<Rightarrow> string \<Rightarrow> bool" where
  "endswith s suf = suffix suf s"

definition startswith :: "string \<Rightarrow> string \<Rightarrow> bool" where
  "startswith s pre = prefix pre s"

text \<open>\<open>s[:-n]\<close>: all but the last \<open>n\<close> characters, empty when \<open>s\<close> is shorter.\<close>

definition drop_last :: "nat \<Rightarrow> string \<Rightarrow> string" where
  "drop_last n s = take (length s - n) s"

text \<open>\<open>s.split(".")\<close>: the pieces between the separators, at least one piece.\<close>

fun split :: "char \<Rightarrow> string \<Rightarrow> string list" where
  "split sep [] = [[]]"
| "split sep (c # cs) =
     (if c = sep then [] # split sep cs
      else (case split sep cs of p # ps \<Rightarrow> (c # p) # ps | [] \<Rightarrow> [[c]]))"

text \<open>\<open>s.rsplit(sep, 1)\<close>: split once, at the last separator; one piece when there is none.\<close>

definition rsplit1 :: "char \<Rightarrow> string \<Rightarrow> string list" where
  "rsplit1 sep s =
     (if sep \<in> set s
      then [rev (drop 1 (dropWhile (\<lambda>c. c \<noteq> sep) (rev s))), rev (takeWhile (\<lambda>c. c \<noteq> sep) (rev s))]
      else [s])"

text \<open>\<open>"{}".format(n)\<close> for an integer: its decimal digits, with a sign when negative.\<close>

function str_nat :: "nat \<Rightarrow> string" where
  "str_nat n = (if n < 10 then [char_of (48 + n)] else str_nat (n div 10) @ [char_of (48 + n mod 10)])"
  by pat_completeness auto
termination
  by (relation "measure id") auto

definition str_int :: "int \<Rightarrow> string" where
  "str_int i = (if i < 0 then ''-'' @ str_nat (nat (- i)) else str_nat (nat i))"

text \<open>A Python \<open>set\<close> is a list without repetitions, in some iteration order.\<close>

definition set_add :: "'a \<Rightarrow> 'a list \<Rightarrow> 'a list" where
  "set_add x xs = (if x \<in> set xs then xs else xs @ [x])"

text \<open>
  A \<open>dict\<close> is an association list with one entry per key: \<open>d[k] = v\<close> overwrites the
  entry of \<open>k\<close> where it stands and appends it otherwise.
\<close>

fun dict_set :: "'k \<Rightarrow> 'v \<Rightarrow> ('k \<times> 'v) list \<Rightarrow> ('k \<times> 'v) list" where
  "dict_set k v [] = [(k, v)]"
| "dict_set k v ((k', v') # d) = (if k = k' then (k, v) # d else (k', v') # dict_set k v d)"

text \<open>\<open>d[k].add(x)\<close> on a \<open>defaultdict(set)\<close>.\<close>

fun defaultdict_add :: "'k \<Rightarrow> 'a \<Rightarrow> ('k \<times> 'a list) list \<Rightarrow> ('k \<times> 'a list) list" where
  "defaultdict_add k x [] = [(k, [x])]"
| "defaultdict_add k x ((k', xs) # d) =
     (if k = k' then (k', set_add x xs) # d else (k', xs) # defaultdict_add k x d)"

datatype error = AssertionError string | KeyError string | IndexError

section \<open>The descriptor tree\<close>

text \<open>
  The messages of \<open>google.protobuf.descriptor_pb2\<close> with the fields the generator reads.
  Labels and type tags are the integers of \<open>descriptor.proto\<close>; \<open>oneof_index\<close> is
  \<open>None\<close> when \<open>HasField("oneof_index")\<close> is false.
\<close>

record FieldDescriptorProto =
  f_name :: string
  f_label :: int
  f_type :: int
  f_type_name :: string
  f_oneof_index :: "int option"

definition LABEL_REPEATED :: int where "LABEL_REPEATED = 3"

definition TYPE_DOUBLE :: int where "TYPE_DOUBLE = 1"
definition TYPE_FLOAT :: int where "TYPE_FLOAT = 2"
definition TYPE_INT64 :: int where "TYPE_INT64 = 3"
definition TYPE_UINT64 :: int where "TYPE_UINT64 = 4"
definition TYPE_INT32 :: int where "TYPE_INT32 = 5"
definition TYPE_FIXED64 :: int where "TYPE_FIXED64 = 6"
definition TYPE_FIXED32 :: int where "TYPE_FIXED32 = 7"
definition TYPE_BOOL :: int where "TYPE_BOOL = 8"
definition TYPE_STRING :: int where "TYPE_STRING = 9"
definition TYPE_GROUP :: int where "TYPE_GROUP = 10"
definition TYPE_MESSAGE :: int where "TYPE_MESSAGE = 11"
definition TYPE_BYTES :: int where "TYPE_BYTES = 12"
definition TYPE_UINT32 :: int where "TYPE_UINT32 = 13"
definition TYPE_ENUM :: int where "TYPE_ENUM = 14"
definition TYPE_SFIXED32 :: int where "TYPE_SFIXED32 = 15"
definition TYPE_SFIXED64 :: int where "TYPE_SFIXED64 = 16"
definition TYPE_SINT32 :: int where "TYPE_SINT32 = 17"
definition TYPE_SINT64 :: int where "TYPE_SINT64 = 18"

record EnumValueDescriptorProto =
  ev_name :: string
  ev_number :: int

record EnumDescriptorProto =
  e_name :: string
  e_value :: "EnumValueDescriptorProto list"

datatype DescriptorProto =
  DescriptorProto
    (m_name: string)
    (m_field: "FieldDescriptorProto list")
    (m_nested_type: "DescriptorProto list")
    (m_enum_type: "EnumDescriptorProto list")
    (m_oneof_decl: "string list")
    (m_map_entry: bool)

record MethodDescriptorProto =
  meth_name :: string
  meth_input_type :: string
  meth_output_type :: string
  meth_server_streaming :: bool

record ServiceDescriptorProto =
  s_name :: string
  s_method :: "MethodDescriptorProto list"

record FileDescriptorProto =
  fd_name :: string
  fd_package :: string
  fd_syntax :: string
  fd_message_type :: "DescriptorProto list"
  fd_enum_type :: "EnumDescriptorProto list"
  fd_service :: "ServiceDescriptorProto list"
  fd_extension :: "FieldDescriptorProto list"
  fd_py_generic_services :: bool

record Descriptors =
  files :: "(string \<times> FileDescriptorProto) list"
  to_generate :: "(string \<times> FileDescriptorProto) list"
  messages :: "(string \<times> DescriptorProto) list"
  message_to_fd :: "(string \<times> FileDescriptorProto) list"

section \<open>Module constants\<close>

definition HEADER :: string where
  "HEADER = ''# @generated by generate_proto_mypy_stubs.py.  Do not edit!\<newline>''"

definition PYTHON_RESERVED :: "string set" where
  "PYTHON_RESERVED = set
     [''False'', ''None'', ''True'', ''and'', ''as'', ''async'', ''await'', ''assert'',
      ''break'', ''class'', ''continue'', ''def'', ''del'', ''elif'', ''else'', ''except'',
      ''finally'', ''for'', ''from'', ''global'', ''if'', ''import'', ''in'', ''is'',
      ''lambda'', ''nonlocal'', ''not'', ''or'', ''pass'', ''raise'', ''return'', ''try'',
      ''while'', ''with'', ''yield'']"

definition PY2_ONLY_BUILTINS :: "string set" where
  "PY2_ONLY_BUILTINS = set [''buffer'', ''unicode'']"

definition mangle_builtin :: "string \<Rightarrow> string" where
  "mangle_builtin name = ''builtin___'' @ name"

definition mangle_message :: "string \<Rightarrow> string" where
  "mangle_message name = ''type___'' @ name"

section \<open>The writer of one stub file\<close>

record PkgWriter =
  fd :: FileDescriptorProto
  descriptors :: Descriptors
  lines :: "string list"
  indent :: string
  imports' :: "(string \<times> (string \<times> string) list) list"
  locals :: "string list"
  builtin_vars :: "string list"
  py2_builtin_vars :: "string list"

definition PkgWriter_init :: "FileDescriptorProto \<Rightarrow> Descriptors \<Rightarrow> PkgWriter" where
  "PkgWriter_init f ds =
     \<lparr>fd = f, descriptors = ds, lines = [], indent = [], imports' = [], locals = [],
      builtin_vars = [], py2_builtin_vars = []\<rparr>"

text \<open>\<open>_import\<close>: the alias is computed from the path and the name alone.\<close>

definition do_import :: "string \<Rightarrow> string \<Rightarrow> PkgWriter \<Rightarrow> string \<times> PkgWriter" where
  "do_import path name w =
     (let imp = replace CHR ''/'' ''.'' path;
          mangled_name = replace CHR ''.'' ''___'' imp @ ''___'' @ name
      in (mangled_name, w\<lparr>imports' := defaultdict_add imp (name, mangled_name) (imports' w)\<rparr>))"

definition builtin :: "string \<Rightarrow> PkgWriter \<Rightarrow> string \<times> PkgWriter" where
  "builtin name w =
     (if name \<in> PY2_ONLY_BUILTINS
      then (mangle_builtin name, w\<lparr>py2_builtin_vars := set_add name (py2_builtin_vars w)\<rparr>)
      else (mangle_builtin name, w\<lparr>builtin_vars := set_add name (builtin_vars w)\<rparr>))"

text \<open>\<open>with self._indent():\<close> is \<open>indent_enter\<close>, the body, then \<open>indent_exit\<close>.\<close>

definition indent_enter :: "PkgWriter \<Rightarrow> PkgWriter" where
  "indent_enter w = w\<lparr>indent := indent w @ ''    ''\<rparr>"

definition indent_exit :: "PkgWriter \<Rightarrow> PkgWriter" where
  "indent_exit w = w\<lparr>indent := drop_last 4 (indent w)\<rparr>"

text \<open>
  \<open>_write_line\<close>, applied to the formatted text. Every format string of the module but
  the empty one holds literal characters, so the text is empty exactly when the format is.
\<close>

definition write_line :: "string \<Rightarrow> PkgWriter \<Rightarrow> PkgWriter" where
  "write_line line w =
     (if line = [] then w\<lparr>lines := lines w @ [line]\<rparr>
      else w\<lparr>lines := lines w @ [indent w @ line]\<rparr>)"

subsection \<open>Rendering: \<open>write\<close>\<close>

definition import_item :: "string \<times> string \<Rightarrow> string" where
  "import_item = (\<lambda>(name, mangled_name). ''    '' @ name @ '' as '' @ mangled_name @ '','')"

definition import_block :: "string \<times> (string \<times> string) list \<Rightarrow> string list" where
  "import_block = (\<lambda>(pkg, items).
     [''from '' @ pkg @ '' import (''] @ map import_item (sort items) @ ['')\<newline>''])"

definition write_imports :: "PkgWriter \<Rightarrow> string list" where
  "write_imports w =
     [''import sys''] @ concat (map import_block (sort_key fst (imports' w))) @ [[]]"

definition write_aliases :: "PkgWriter \<Rightarrow> string list" where
  "write_aliases w =
     (let aliases = map (\<lambda>var. mangle_builtin var @ '' = '' @ var) (sort (builtin_vars w));
          aliases = (if py2_builtin_vars w \<noteq> []
                     then aliases @ [''if sys.version_info < (3,):'']
                          @ map (\<lambda>var. ''    '' @ mangle_builtin var @ '' = '' @ var)
                              (sort (py2_builtin_vars w))
                     else aliases)
      in if aliases \<noteq> [] then aliases @ [''\<newline>''] else aliases)"

definition PkgWriter_write :: "PkgWriter \<Rightarrow> string" where
  "PkgWriter_write w = join ''\<newline>'' (write_imports w @ write_aliases w @ lines w)"

subsection \<open>Loops that may abort\<close>

text \<open>
  A \<open>for\<close> loop whose body may raise: the first error ends the loop and is the result.
\<close>

fun for_each :: "('a \<Rightarrow> 's \<Rightarrow> error + 's) \<Rightarrow> 'a list \<Rightarrow> 's \<Rightarrow> error + 's" where
  "for_each body [] s = Inr s"
| "for_each body (x # xs) s =
     (case body x s of Inl e \<Rightarrow> Inl e | Inr s' \<Rightarrow> for_each body xs s')"

subsection \<open>Type references\<close>

definition import_message :: "string \<Rightarrow> PkgWriter \<Rightarrow> error + string \<times> PkgWriter" where
  "import_message name w =
     (case map_of (message_to_fd (descriptors w)) name of
        None \<Rightarrow> Inl (KeyError name)
      | Some message_fd \<Rightarrow>
          if \<not> endswith (fd_name message_fd) ''.proto'' then Inl (AssertionError [])
          else if fd_package message_fd \<noteq> []
                  \<and> \<not> startswith name (''.'' @ fd_package message_fd @ ''.'')
            then Inl (AssertionError [])
          else if fd_package message_fd = [] \<and> \<not> startswith name ''.''
            then Inl (AssertionError [])
          else
            let name = (if fd_package message_fd \<noteq> []
                        then drop (length (''.'' @ fd_package message_fd @ ''.'')) name
                        else drop 1 name)
            in if fd_name message_fd = fd_name (fd w) then Inr (mangle_message name, w)
               else
                 (case split CHR ''.'' name of
                    [] \<Rightarrow> Inl IndexError
                  | first # rest \<Rightarrow>
                      let (import_name, w) =
                            do_import (replace CHR ''-'' ''_'' (drop_last 6 (fd_name message_fd)) @ ''_pb2'')
                              first w;
                          remains = join ''.'' rest
                      in if remains = [] then Inr (import_name, w)
                         else Inr (import_name @ ''.'' @ remains, w)))"

text \<open>
  The table of \<open>python_type\<close>: one closure per type tag, over the four builtin aliases
  taken before the table is built.
\<close>

definition python_type_mapping ::
  "string \<Rightarrow> string \<Rightarrow> string \<Rightarrow> string \<Rightarrow> FieldDescriptorProto
    \<Rightarrow> (int \<times> (PkgWriter \<Rightarrow> error + string \<times> PkgWriter)) list" where
  "python_type_mapping b_float b_int b_bool b_bytes field =
     [(TYPE_DOUBLE, \<lambda>w. Inr (b_float, w)),
      (TYPE_FLOAT, \<lambda>w. Inr (b_float, w)),
      (TYPE_INT64, \<lambda>w. Inr (b_int, w)),
      (TYPE_UINT64, \<lambda>w. Inr (b_int, w)),
      (TYPE_FIXED64, \<lambda>w. Inr (b_int, w)),
      (TYPE_SFIXED64, \<lambda>w. Inr (b_int, w)),
      (TYPE_SINT64, \<lambda>w. Inr (b_int, w)),
      (TYPE_INT32, \<lambda>w. Inr (b_int, w)),
      (TYPE_UINT32, \<lambda>w. Inr (b_int, w)),
      (TYPE_FIXED32, \<lambda>w. Inr (b_int, w)),
      (TYPE_SFIXED32, \<lambda>w. Inr (b_int, w)),
      (TYPE_SINT32, \<lambda>w. Inr (b_int, w)),
      (TYPE_BOOL, \<lambda>w. Inr (b_bool, w)),
      (TYPE_STRING, \<lambda>w. Inr (do_import ''typing'' ''Text'' w)),
      (TYPE_BYTES, \<lambda>w. Inr (b_bytes, w)),
      (TYPE_ENUM, \<lambda>w. import_message (f_type_name field @ ''Value'') w),
      (TYPE_MESSAGE, \<lambda>w. import_message (f_type_name field) w),
      (TYPE_GROUP, \<lambda>w. import_message (f_type_name field) w)]"

definition python_type :: "FieldDescriptorProto \<Rightarrow> PkgWriter \<Rightarrow> error + string \<times> PkgWriter" where
  "python_type field w =
     (let (b_float, w) = builtin ''float'' w;
          (b_int, w) = builtin ''int'' w;
          (b_bool, w) = builtin ''bool'' w;
          (b_bytes, w) = builtin ''bytes'' w;
          mapping = python_type_mapping b_float b_int b_bool b_bytes field
      in case map_of mapping (f_type field) of
           None \<Rightarrow> Inl (AssertionError (''Unrecognized type: '' @ str_int (f_type field)))
         | Some f \<Rightarrow> f w)"

definition is_scalar :: "FieldDescriptorProto \<Rightarrow> bool" where
  "is_scalar f = (\<not> (f_type f = TYPE_MESSAGE \<or> f_type f = TYPE_GROUP))"

subsection \<open>Enums, module attributes, extensions\<close>

definition write_enum_values :: "EnumDescriptorProto \<Rightarrow> string \<Rightarrow> PkgWriter \<Rightarrow> PkgWriter" where
  "write_enum_values enum enum_full_name =
     fold (\<lambda>val w.
        if ev_name val \<in> PYTHON_RESERVED then w
        else
          let (cast, w) = do_import ''typing'' ''cast'' w
          in write_line
               (ev_name val @ '' = '' @ cast @ ''('' @ enum_full_name @ '', ''
                  @ str_int (ev_number val) @ '')'') w)
       (e_value enum)"

definition write_module_attributes :: "PkgWriter \<Rightarrow> PkgWriter" where
  "write_module_attributes w =
     (let (file_descriptor, w) = do_import ''google.protobuf.descriptor'' ''FileDescriptor'' w;
          w = write_line (''DESCRIPTOR: '' @ file_descriptor @ '' = ...'') w
      in write_line [] w)"

definition write_enums :: "EnumDescriptorProto list \<Rightarrow> string \<Rightarrow> PkgWriter \<Rightarrow> PkgWriter" where
  "write_enums enums prefix' =
     fold (\<lambda>enum w.
        let enum_value_type = e_name enum @ ''Value'';
            (new_type, w) = do_import ''typing'' ''NewType'' w;
            (b_int, w) = builtin ''int'' w;
            w = write_line
                  (enum_value_type @ '' = '' @ new_type @ ''('' @ [CHR 0x27] @ enum_value_type
                     @ [CHR 0x27] @ '', '' @ b_int @ '')'') w;
            w = write_line (mangle_message enum_value_type @ '' = '' @ enum_value_type) w;
            enum_value_full_type = prefix' @ enum_value_type;
            w = write_line (e_name enum @ '': '' @ (''_'' @ e_name enum)) w;
            (wrapper, w) =
              do_import ''google.protobuf.internal.enum_type_wrapper'' ''_EnumTypeWrapper'' w;
            w = write_line
                  (''class '' @ (''_'' @ e_name enum) @ ''('' @ wrapper @ ''['' @ enum_value_full_type
                     @ '']):'') w;
            w = indent_enter w;
            (enum_descriptor, w) = do_import ''google.protobuf.descriptor'' ''EnumDescriptor'' w;
            w = write_line (''DESCRIPTOR: '' @ enum_descriptor @ '' = ...'') w;
            w = write_enum_values enum enum_value_full_type w;
            w = indent_exit w;
            w = write_enum_values enum enum_value_full_type w;
            w = write_line (mangle_message (e_name enum) @ '' = '' @ e_name enum) w
        in write_line [] w)
       (filter (\<lambda>e. e_name e \<notin> PYTHON_RESERVED) enums)"

definition write_extensions :: "FieldDescriptorProto list \<Rightarrow> PkgWriter \<Rightarrow> PkgWriter" where
  "write_extensions extensions w =
     (if extensions = [] then w
      else
        let (field_descriptor_class, w) =
              do_import ''google.protobuf.descriptor'' ''FieldDescriptor'' w
        in fold (\<lambda>extension w.
              let w = write_line (f_name extension @ '': '' @ field_descriptor_class @ '' = ...'') w
              in write_line [] w)
             extensions w)"

subsection \<open>Messages\<close>

text \<open>The body of the loop over the scalar fields of a message.\<close>

definition write_scalar_field :: "FieldDescriptorProto \<Rightarrow> PkgWriter \<Rightarrow> error + PkgWriter" where
  "write_scalar_field field w =
     (if f_label field = LABEL_REPEATED then
        let (container, w) =
              do_import ''google.protobuf.internal.containers'' ''RepeatedScalarFieldContainer'' w
        in (case python_type field w of
              Inl e \<Rightarrow> Inl e
            | Inr (t, w) \<Rightarrow>
                Inr (write_line (f_name field @ '': '' @ container @ ''['' @ t @ ''] = ...'') w))
      else
        (case python_type field w of
           Inl e \<Rightarrow> Inl e
         | Inr (t, w) \<Rightarrow> Inr (write_line (f_name field @ '': '' @ t @ '' = ...'') w)))"

text \<open>The body of the loop over the non-scalar fields: a read-only property each.\<close>

definition write_getter :: "FieldDescriptorProto \<Rightarrow> PkgWriter \<Rightarrow> error + PkgWriter" where
  "write_getter field w =
     (let w = write_line ''@property'' w;
          r =
            (if f_label field = LABEL_REPEATED then
               (case map_of (messages (descriptors w)) (f_type_name field) of
                  None \<Rightarrow> Inl (KeyError (f_type_name field))
                | Some msg \<Rightarrow>
                    if m_map_entry msg then
                      let (container, w) = do_import ''typing'' ''MutableMapping'' w
                      in (case m_field msg of
                            [] \<Rightarrow> Inl IndexError
                          | key # rest \<Rightarrow>
                              (case python_type key w of
                                 Inl e \<Rightarrow> Inl e
                               | Inr (kt, w) \<Rightarrow>
                                   (case rest of
                                      [] \<Rightarrow> Inl IndexError
                                    | val # _ \<Rightarrow>
                                        (case python_type val w of
                                           Inl e \<Rightarrow> Inl e
                                         | Inr (vt, w) \<Rightarrow>
                                             Inr (write_line
                                                    (''def '' @ f_name field @ ''(self) -> '' @ container
                                                       @ ''['' @ kt @ '', '' @ vt @ '']: ...'') w)))))
                    else
                      let (container, w) =
                            do_import ''google.protobuf.internal.containers''
                              ''RepeatedCompositeFieldContainer'' w
                      in (case python_type field w of
                            Inl e \<Rightarrow> Inl e
                          | Inr (t, w) \<Rightarrow>
                              Inr (write_line
                                     (''def '' @ f_name field @ ''(self) -> '' @ container @ ''['' @ t
                                        @ '']: ...'') w)))
             else
               (case python_type field w of
                  Inl e \<Rightarrow> Inl e
                | Inr (t, w) \<Rightarrow>
                    Inr (write_line (''def '' @ f_name field @ ''(self) -> '' @ t @ '': ...'') w)))
      in case r of Inl e \<Rightarrow> Inl e | Inr w \<Rightarrow> Inr (write_line [] w))"

text \<open>The body of the loop over the constructor's parameters.\<close>

definition write_init_param :: "FieldDescriptorProto \<Rightarrow> PkgWriter \<Rightarrow> error + PkgWriter" where
  "write_init_param field w =
     (if f_label field = LABEL_REPEATED then
        (case (case map_of (messages (descriptors w)) (f_type_name field) of
                 None \<Rightarrow> None
               | Some msg \<Rightarrow> if m_map_entry msg then Some msg else None) of
           Some msg \<Rightarrow>
             let (optional, w) = do_import ''typing'' ''Optional'' w;
                 (mapping, w) = do_import ''typing'' ''Mapping'' w
             in (case m_field msg of
                   [] \<Rightarrow> Inl IndexError
                 | key # rest \<Rightarrow>
                     (case python_type key w of
                        Inl e \<Rightarrow> Inl e
                      | Inr (kt, w) \<Rightarrow>
                          (case rest of
                             [] \<Rightarrow> Inl IndexError
                           | val # _ \<Rightarrow>
                               (case python_type val w of
                                  Inl e \<Rightarrow> Inl e
                                | Inr (vt, w) \<Rightarrow>
                                    Inr (write_line
                                           (f_name field @ '' : '' @ optional @ ''['' @ mapping
                                              @ ''['' @ kt @ '', '' @ vt @ '']] = None,'') w)))))
         | None \<Rightarrow>
             let (optional, w) = do_import ''typing'' ''Optional'' w;
                 (iterable, w) = do_import ''typing'' ''Iterable'' w
             in (case python_type field w of
                   Inl e \<Rightarrow> Inl e
                 | Inr (t, w) \<Rightarrow>
                     Inr (write_line
                            (f_name field @ '' : '' @ optional @ ''['' @ iterable @ ''['' @ t
                               @ '']] = None,'') w)))
      else
        let (optional, w) = do_import ''typing'' ''Optional'' w
        in (case python_type field w of
              Inl e \<Rightarrow> Inl e
            | Inr (t, w) \<Rightarrow>
                Inr (write_line (f_name field @ '' : '' @ optional @ ''['' @ t @ ''] = None,'') w)))"

subsection \<open>The stringly-typed accessors\<close>

definition hf_fields :: "FileDescriptorProto \<Rightarrow> DescriptorProto \<Rightarrow> string list" where
  "hf_fields file desc =
     map f_name
       (filter (\<lambda>f. f_oneof_index f \<noteq> None
                  \<or> (f_label f \<noteq> LABEL_REPEATED
                       \<and> (fd_syntax file \<noteq> ''proto3'' \<or> f_type f = TYPE_MESSAGE)))
          (m_field desc))"

definition cf_fields :: "DescriptorProto \<Rightarrow> string list" where
  "cf_fields desc = map f_name (m_field desc)"

definition wo_fields :: "DescriptorProto \<Rightarrow> (string \<times> string list) list" where
  "wo_fields desc =
     fold (\<lambda>(idx, oneof) d.
        dict_set oneof
          (map f_name (filter (\<lambda>f. f_oneof_index f \<noteq> None \<and> f_oneof_index f = Some (int idx))
             (m_field desc))) d)
       (enumerate 0 (m_oneof_decl desc)) []"

definition literal_both :: "string \<Rightarrow> string" where
  \<open>literal_both name = ''u"'' @ name @ ''",b"'' @ name @ ''"''\<close>

definition literal_str :: "string \<Rightarrow> string" where
  \<open>literal_str m = ''"'' @ m @ ''"''\<close>

definition write_stringly_typed_fields :: "DescriptorProto \<Rightarrow> PkgWriter \<Rightarrow> PkgWriter" where
  "write_stringly_typed_fields desc w =
     (let wo = wo_fields desc;
          hf = hf_fields (fd w) desc @ map fst wo;
          cf = cf_fields desc @ map fst wo;
          hf_fields_text = join '','' (sort (map literal_both hf));
          cf_fields_text = join '','' (sort (map literal_both cf))
      in if hf = [] \<and> cf = [] \<and> wo = [] then w
         else
           let w = (if hf \<noteq> [] then
                      let (literal, w) = do_import ''typing_extensions'' ''Literal'' w;
                          (b_bool, w) = builtin ''bool'' w
                      in write_line
                           (''def HasField(self, field_name: '' @ literal @ ''['' @ hf_fields_text
                              @ '']) -> '' @ b_bool @ '': ...'') w
                    else w);
               w = (if cf \<noteq> [] then
                      let (literal, w) = do_import ''typing_extensions'' ''Literal'' w
                      in write_line
                           (''def ClearField(self, field_name: '' @ literal @ ''['' @ cf_fields_text
                              @ '']) -> None: ...'') w
                    else w)
           in fold (\<lambda>(wo_field, members) w.
                 let w = (if length wo > 1 then
                            let (overload, w) = do_import ''typing'' ''overload'' w
                            in write_line (''@'' @ overload) w
                          else w);
                     (literal, w) = do_import ''typing_extensions'' ''Literal'' w;
                     (literal', w) = do_import ''typing_extensions'' ''Literal'' w
                 in write_line
                      (''def WhichOneof(self, oneof_group: '' @ literal @ ''['' @ literal_both wo_field
                         @ '']) -> '' @ literal' @ ''['' @ join '','' (map literal_str members)
                         @ '']: ...'') w)
                (sort wo) w)"

subsection \<open>The recursive walk over the messages\<close>

text \<open>What the loop body of \<open>write_messages\<close> emits after the nested types.\<close>

definition write_message_fields :: "DescriptorProto \<Rightarrow> PkgWriter \<Rightarrow> error + PkgWriter" where
  "write_message_fields desc w =
     (let fields = filter (\<lambda>f. f_name f \<notin> PYTHON_RESERVED) (m_field desc)
      in case for_each write_scalar_field (filter is_scalar fields) w of
           Inl e \<Rightarrow> Inl e
         | Inr w \<Rightarrow>
             (case for_each write_getter (filter (\<lambda>f. \<not> is_scalar f) fields) (write_line [] w) of
                Inl e \<Rightarrow> Inl e
              | Inr w \<Rightarrow>
                  let w = write_line ''def __init__(self,'' w;
                      w = indent_enter w;
                      w = (if length fields > 0 then write_line ''*,'' w else w)
                  in (case for_each write_init_param fields w of
                        Inl e \<Rightarrow> Inl e
                      | Inr w \<Rightarrow>
                          let w = write_line '') -> None: ...'' w;
                              w = indent_exit w
                          in Inr (write_stringly_typed_fields desc w))))"

lemma for_each_cong [fundef_cong]:
  "xs = ys \<Longrightarrow> s = t \<Longrightarrow> (\<And>x s'. x \<in> set ys \<Longrightarrow> f x s' = g x s')
    \<Longrightarrow> for_each f xs s = for_each g ys t"
  by (induction ys arbitrary: xs s t) (auto split: sum.splits)

function write_messages :: "DescriptorProto list \<Rightarrow> string \<Rightarrow> PkgWriter \<Rightarrow> error + PkgWriter" where
  "write_messages msgs prefix' w =
     (let (message_class, w) = do_import ''google.protobuf.message'' ''Message'' w
      in for_each (\<lambda>desc w.
            let w = w\<lparr>locals := set_add (m_name desc) (locals w)\<rparr>;
                qualified_name = prefix' @ m_name desc;
                w = write_line (''class '' @ m_name desc @ ''('' @ message_class @ ''):'') w;
                w = indent_enter w;
                (descriptor, w) = do_import ''google.protobuf.descriptor'' ''Descriptor'' w;
                w = write_line (''DESCRIPTOR: '' @ descriptor @ '' = ...'') w;
                w = write_enums (m_enum_type desc) (qualified_name @ ''.'') w
            in (case write_messages (m_nested_type desc) (qualified_name @ ''.'') w of
                  Inl e \<Rightarrow> Inl e
                | Inr w \<Rightarrow>
                    (case write_message_fields desc w of
                       Inl e \<Rightarrow> Inl e
                     | Inr w \<Rightarrow>
                         let w = indent_exit w;
                             w = write_line (mangle_message (m_name desc) @ '' = '' @ m_name desc) w
                         in Inr (write_line [] w))))
           (filter (\<lambda>m. m_name m \<notin> PYTHON_RESERVED) msgs) w)"
  by pat_completeness auto
termination
proof -
  have nested: "size_list size (m_nested_type desc) < size desc" for desc
    by (cases desc) simp
  have mem: "desc \<in> set msgs \<Longrightarrow> size desc \<le> size_list size msgs" for desc and msgs :: "DescriptorProto list"
    by (induction msgs) auto
  have step: "desc \<in> set msgs \<Longrightarrow> size_list size (m_nested_type desc) < size_list size msgs"
    for desc and msgs :: "DescriptorProto list"
    using nested [of desc] mem [of desc msgs] by linarith
  show ?thesis
    by (relation "measure (\<lambda>(msgs, p, w). size_list size msgs)") (auto intro: step)
qed

declare write_messages.simps [simp del]

subsection \<open>Services\<close>

definition write_methods :: "ServiceDescriptorProto \<Rightarrow> bool \<Rightarrow> PkgWriter \<Rightarrow> error + PkgWriter" where
  "write_methods service is_abstract w =
     (let methods = filter (\<lambda>m. meth_name m \<notin> PYTHON_RESERVED) (s_method service);
          w = (if methods = [] then write_line ''pass'' w else w)
      in for_each (\<lambda>method w.
            let w = (if is_abstract then
                       let (abstractmethod, w) = do_import ''abc'' ''abstractmethod'' w
                       in write_line (''@'' @ abstractmethod) w
                     else w);
                w = write_line (''def '' @ meth_name method @ ''(self,'') w;
                w = indent_enter w;
                (rpc_controller, w) = do_import ''google.protobuf.service'' ''RpcController'' w;
                w = write_line (''rpc_controller: '' @ rpc_controller @ '','') w
            in (case import_message (meth_input_type method) w of
                  Inl e \<Rightarrow> Inl e
                | Inr (request, w) \<Rightarrow>
                    let w = write_line (''request: '' @ request @ '','') w;
                        (optional, w) = do_import ''typing'' ''Optional'' w;
                        (callable, w) = do_import ''typing'' ''Callable'' w
                    in (case import_message (meth_output_type method) w of
                          Inl e \<Rightarrow> Inl e
                        | Inr (out, w) \<Rightarrow>
                            let w = write_line
                                      (''done: '' @ optional @ ''['' @ callable @ ''[['' @ out
                                         @ ''], None]],'') w;
                                w = indent_exit w;
                                (future, w) = do_import ''concurrent.futures'' ''Future'' w
                            in (case import_message (meth_output_type method) w of
                                  Inl e \<Rightarrow> Inl e
                                | Inr (out, w) \<Rightarrow>
                                    Inr (write_line
                                           ('') -> '' @ future @ ''['' @ out @ '']: ...'') w)))))
           methods w)"

definition write_services :: "ServiceDescriptorProto list \<Rightarrow> PkgWriter \<Rightarrow> error + PkgWriter" where
  "write_services services w =
     for_each (\<lambda>service w.
        let (service_class, w) = do_import ''google.protobuf.service'' ''Service'' w;
            (abc_meta, w) = do_import ''abc'' ''ABCMeta'' w;
            w = write_line
                  (''class '' @ s_name service @ ''('' @ service_class @ '', metaclass='' @ abc_meta
                     @ ''):'') w;
            w = indent_enter w
        in (case write_methods service True w of
              Inl e \<Rightarrow> Inl e
            | Inr w \<Rightarrow>
                let w = indent_exit w;
                    w = write_line
                          (''class '' @ (s_name service @ ''_Stub'') @ ''('' @ s_name service @ ''):'') w;
                    w = indent_enter w;
                    (rpc_channel, w) = do_import ''google.protobuf.service'' ''RpcChannel'' w;
                    w = write_line
                          (''def __init__(self, rpc_channel: '' @ rpc_channel @ '') -> None: ...'') w
                in (case write_methods service False w of
                      Inl e \<Rightarrow> Inl e
                    | Inr w \<Rightarrow> Inr (indent_exit w))))
       (filter (\<lambda>s. s_name s \<notin> PYTHON_RESERVED) services) w"

definition output_type :: "MethodDescriptorProto \<Rightarrow> PkgWriter \<Rightarrow> error + string \<times> PkgWriter" where
  "output_type method w =
     (case import_message (meth_output_type method) w of
        Inl e \<Rightarrow> Inl e
      | Inr (result, w) \<Rightarrow>
          if meth_server_streaming method then
            let (generator, w) = do_import ''typing'' ''Generator'' w
            in Inr (generator @ ''['' @ result @ '', None, None]'', w)
          else Inr (result, w))"

definition write_grpc_methods :: "ServiceDescriptorProto \<Rightarrow> PkgWriter \<Rightarrow> error + PkgWriter" where
  "write_grpc_methods service w =
     (let methods = filter (\<lambda>m. meth_name m \<notin> PYTHON_RESERVED) (s_method service);
          w = (if methods = [] then write_line [] (write_line ''pass'' w) else w)
      in for_each (\<lambda>method w.
            let (abstractmethod, w) = do_import ''abc'' ''abstractmethod'' w;
                w = write_line (''@'' @ abstractmethod) w;
                w = write_line (''def '' @ meth_name method @ ''(self,'') w;
                w = indent_enter w
            in (case import_message (meth_input_type method) w of
                  Inl e \<Rightarrow> Inl e
                | Inr (request, w) \<Rightarrow>
                    let w = write_line (''request: '' @ request @ '','') w;
                        (servicer_context, w) = do_import ''grpc'' ''ServicerContext'' w;
                        w = write_line (''context: '' @ servicer_context @ '','') w;
                        w = indent_exit w
                    in (case output_type method w of
                          Inl e \<Rightarrow> Inl e
                        | Inr (out, w) \<Rightarrow>
                            Inr (write_line [] (write_line ('') -> '' @ out @ '': ...'') w)))))
           methods w)"

definition write_grpc_stub_methods :: "ServiceDescriptorProto \<Rightarrow> PkgWriter \<Rightarrow> error + PkgWriter" where
  "write_grpc_stub_methods service w =
     (let methods = filter (\<lambda>m. meth_name m \<notin> PYTHON_RESERVED) (s_method service);
          w = (if methods = [] then write_line [] (write_line ''pass'' w) else w)
      in for_each (\<lambda>method w.
            let w = write_line (''def '' @ meth_name method @ ''(self,'') w;
                w = indent_enter w
            in (case import_message (meth_input_type method) w of
                  Inl e \<Rightarrow> Inl e
                | Inr (request, w) \<Rightarrow>
                    let w = write_line (''request: '' @ request @ '','') w;
                        w = indent_exit w
                    in (case output_type method w of
                          Inl e \<Rightarrow> Inl e
                        | Inr (out, w) \<Rightarrow>
                            Inr (write_line [] (write_line ('') -> '' @ out @ '': ...'') w)))))
           methods w)"

text \<open>
  \<open>write_grpc_services\<close> starts with the re-export of the general module:
  \<open>self.fd.name.rsplit('/', 1)[1][:-6].replace("-", "_") + "_pb2"\<close>.
\<close>

definition write_grpc_services :: "ServiceDescriptorProto list \<Rightarrow> PkgWriter \<Rightarrow> error + PkgWriter" where
  "write_grpc_services services w =
     (case rsplit1 CHR ''/'' (fd_name (fd w)) of
        _ # base # _ \<Rightarrow>
          let w = write_line
                    (''from .'' @ (replace CHR ''-'' ''_'' (drop_last 6 base) @ ''_pb2'') @ '' import *'') w
          in for_each (\<lambda>service w.
                let (abc_meta, w) = do_import ''abc'' ''ABCMeta'' w;
                    w = write_line
                          (''class '' @ s_name service @ ''Servicer(metaclass='' @ abc_meta @ ''):'') w;
                    w = indent_enter w
                in (case write_grpc_methods service w of
                      Inl e \<Rightarrow> Inl e
                    | Inr w \<Rightarrow>
                        let w = indent_exit w;
                            w = write_line [] w;
                            w = write_line (''class '' @ s_name service @ ''Stub:'') w;
                            w = indent_enter w;
                            (channel, w) = do_import ''grpc'' ''Channel'' w;
                            w = write_line
                                  (''def __init__(self, channel: '' @ channel @ '') -> None: ...'') w
                        in (case write_grpc_stub_methods service w of
                              Inl e \<Rightarrow> Inl e
                            | Inr w \<Rightarrow> Inr (write_line [] (indent_exit w)))))
               (filter (\<lambda>s. s_name s \<notin> PYTHON_RESERVED) services) w
      | _ \<Rightarrow> Inl IndexError)"

subsection \<open>The two generators\<close>

text \<open>
  A response is the list of its files, each a name and a content. An error raised for
  one file ends the run: nothing is returned.
\<close>

definition generate_mypy_stubs ::
  "Descriptors \<Rightarrow> (string \<times> string) list \<Rightarrow> error + (string \<times> string) list" where
  "generate_mypy_stubs ds response =
     for_each (\<lambda>(name, file) response.
        let pkg_writer = PkgWriter_init file ds;
            pkg_writer = write_module_attributes pkg_writer;
            pkg_writer = write_enums (fd_enum_type file) [] pkg_writer
        in (case write_messages (fd_message_type file) [] pkg_writer of
              Inl e \<Rightarrow> Inl e
            | Inr pkg_writer \<Rightarrow>
                let pkg_writer = write_extensions (fd_extension file) pkg_writer
                in (case (if fd_py_generic_services file
                          then write_services (fd_service file) pkg_writer
                          else Inr pkg_writer) of
                      Inl e \<Rightarrow> Inl e
                    | Inr pkg_writer \<Rightarrow>
                        if name \<noteq> fd_name file then Inl (AssertionError [])
                        else if \<not> endswith (fd_name file) ''.proto'' then Inl (AssertionError [])
                        else
                          Inr (response @
                            [(replace CHR ''.'' ''/'' (replace CHR ''-'' ''_'' (drop_last 6 (fd_name file)))
                                @ ''_pb2.pyi'',
                              HEADER @ PkgWriter_write pkg_writer)]))))
       (to_generate ds) response"

definition generate_mypy_grpc_stubs ::
  "Descriptors \<Rightarrow> (string \<times> string) list \<Rightarrow> error + (string \<times> string) list" where
  "generate_mypy_grpc_stubs ds response =
     for_each (\<lambda>(name, file) response.
        let pkg_writer = PkgWriter_init file ds
        in (case write_grpc_services (fd_service file) pkg_writer of
              Inl e \<Rightarrow> Inl e
            | Inr pkg_writer \<Rightarrow>
                if name \<noteq> fd_name file then Inl (AssertionError [])
                else if \<not> endswith (fd_name file) ''.proto'' then Inl (AssertionError [])
                else
                  Inr (response @
                    [(replace CHR ''.'' ''/'' (replace CHR ''-'' ''_'' (drop_last 6 (fd_name file)))
                        @ ''_pb2_grpc.pyi'',
                      HEADER @ PkgWriter_write pkg_writer)])))
       (to_generate ds) response"

subsection \<open>The index of all messages and enums\<close>

definition add_enums ::
  "EnumDescriptorProto list \<Rightarrow> string \<Rightarrow> FileDescriptorProto \<Rightarrow> Descriptors \<Rightarrow> Descriptors" where
  "add_enums enums prefix' file =
     fold (\<lambda>enum ds.
        let ds = ds\<lparr>message_to_fd := dict_set (prefix' @ e_name enum) file (message_to_fd ds)\<rparr>
        in ds\<lparr>message_to_fd := dict_set (prefix' @ e_name enum @ ''Value'') file (message_to_fd ds)\<rparr>)
       enums"

function add_messages ::
  "DescriptorProto list \<Rightarrow> string \<Rightarrow> FileDescriptorProto \<Rightarrow> Descriptors \<Rightarrow> Descriptors" where
  "add_messages msgs prefix' file ds =
     fold (\<lambda>message ds.
        let ds = ds\<lparr>messages := dict_set (prefix' @ m_name message) message (messages ds)\<rparr>;
            ds = ds\<lparr>message_to_fd := dict_set (prefix' @ m_name message) file (message_to_fd ds)\<rparr>;
            sub_prefix = prefix' @ m_name message @ ''.'';
            ds = add_messages (m_nested_type message) sub_prefix file ds
        in add_enums (m_enum_type message) sub_prefix file ds)
       msgs ds"
  by pat_completeness auto
termination
proof -
  have nested: "size_list size (m_nested_type desc) < size desc" for desc
    by (cases desc) simp
  have mem: "desc \<in> set msgs \<Longrightarrow> size desc \<le> size_list size msgs" for desc and msgs :: "DescriptorProto list"
    by (induction msgs) auto
  have step: "desc \<in> set msgs \<Longrightarrow> size_list size (m_nested_type desc) < size_list size msgs"
    for desc and msgs :: "DescriptorProto list"
    using nested [of desc] mem [of desc msgs] by linarith
  show ?thesis
    by (relation "measure (\<lambda>(msgs, p, file, ds). size_list size msgs)") (auto intro: step)
qed

declare add_messages.simps [simp del]

text \<open>
  \<open>Descriptors.__init__\<close>, from the files of the request and the names of the files to
  generate; a name that is no file of the request is a \<open>KeyError\<close>.
\<close>

definition Descriptors_init :: "FileDescriptorProto list \<Rightarrow> string list \<Rightarrow> error + Descriptors" where
  "Descriptors_init proto_file file_to_generate =
     (let fs = fold (\<lambda>f d. dict_set (fd_name f) f d) proto_file []
      in case for_each (\<lambda>n d. case map_of fs n of
                                  None \<Rightarrow> Inl (KeyError n)
                                | Some f \<Rightarrow> Inr (dict_set n f d))
                file_to_generate [] of
           Inl e \<Rightarrow> Inl e
         | Inr tg \<Rightarrow>
             Inr (fold (\<lambda>file ds.
                     let start_prefix = (if fd_package file \<noteq> [] then ''.'' @ fd_package file @ ''.''
                                         else ''.'');
                         ds = add_messages (fd_message_type file) start_prefix file ds
                     in add_enums (fd_enum_type file) start_prefix file ds)
                    proto_file
                    \<lparr>files = fs, to_generate = tg, messages = [], message_to_fd = []\<rparr>))"

section \<open>Properties of the import registry\<close>

text \<open>
  The registry as the writer keeps it: one entry per module, no symbol twice in a module,
  every alias derived from its module and symbol.
\<close>

definition imports_wf :: "(string \<times> (string \<times> string) list) list \<Rightarrow> bool" where
  "imports_wf d =
     (distinct (map fst d) \<and>
      list_all (\<lambda>(pkg, items). distinct items \<and>
         list_all (\<lambda>(name, mangled). mangled = replace CHR ''.'' ''___'' pkg @ ''___'' @ name) items) d)"

text \<open>The writer after the four builtin aliases \<open>python_type\<close> takes first.\<close>

definition after_builtins :: "PkgWriter \<Rightarrow> PkgWriter" where
  "after_builtins w =
     snd (builtin ''bytes'' (snd (builtin ''bool'' (snd (builtin ''int'' (snd (builtin ''float'' w)))))))"

definition grpc_bug_file :: FileDescriptorProto where
  "grpc_bug_file =
     \<lparr>fd_name = ''p.proto'', fd_package = ''pkg'', fd_syntax = ''proto3'', fd_message_type = [],
      fd_enum_type = [], fd_service = [], fd_extension = [], fd_py_generic_services = False\<rparr>"

definition names_file :: FileDescriptorProto where
  "names_file =
     \<lparr>fd_name = ''a/p-q.v1.proto'', fd_package = ''pkg'', fd_syntax = ''proto3'',
      fd_message_type = [], fd_enum_type = [], fd_service = [], fd_extension = [],
      fd_py_generic_services = False\<rparr>"

definition names_descriptors :: Descriptors where
  "names_descriptors =
     \<lparr>files = [(''a/p-q.v1.proto'', names_file)], to_generate = [(''a/p-q.v1.proto'', names_file)],
      messages = [], message_to_fd = []\<rparr>"

text \<open>A message with a oneof group whose members are declared in the order \<open>b\<close>, \<open>a\<close>.\<close>

definition oneof_file :: FileDescriptorProto where
  "oneof_file =
     \<lparr>fd_name = ''p.proto'', fd_package = ''pkg'', fd_syntax = ''proto3'', fd_message_type = [],
      fd_enum_type = [], fd_service = [], fd_extension = [], fd_py_generic_services = False\<rparr>"

definition oneof_message :: DescriptorProto where
  "oneof_message =
     DescriptorProto ''M''
       [\<lparr>f_name = ''id'', f_label = 1, f_type = TYPE_INT32, f_type_name = [], f_oneof_index = None\<rparr>,
        \<lparr>f_name = ''class'', f_label = 1, f_type = TYPE_INT32, f_type_name = [], f_oneof_index = None\<rparr>,
        \<lparr>f_name = ''b'', f_label = 1, f_type = TYPE_INT32, f_type_name = [], f_oneof_index = Some 0\<rparr>,
        \<lparr>f_name = ''a'', f_label = 1, f_type = TYPE_INT32, f_type_name = [], f_oneof_index = Some 0\<rparr>]
       [] [] [''g''] False"

definition oneof_writer :: PkgWriter where
  "oneof_writer =
     PkgWriter_init oneof_file
       \<lparr>files = [(''p.proto'', oneof_file)], to_generate = [(''p.proto'', oneof_file)],
        messages = [], message_to_fd = []\<rparr>"

text \<open>The three accessor signatures as text, for a given indentation.\<close>

definition has_field_line :: "string \<Rightarrow> string list \<Rightarrow> string" where
  "has_field_line ind names =
     ind @ ''def HasField(self, field_name: typing_extensions___Literal['' @ join '','' names
       @ '']) -> builtin___bool: ...''"

definition clear_field_line :: "string \<Rightarrow> string list \<Rightarrow> string" where
  "clear_field_line ind names =
     ind @ ''def ClearField(self, field_name: typing_extensions___Literal['' @ join '','' names
       @ '']) -> None: ...''"

definition which_oneof_line :: "string \<Rightarrow> string \<Rightarrow> string list \<Rightarrow> string" where
  "which_oneof_line ind grp members =
     ind @ ''def WhichOneof(self, oneof_group: typing_extensions___Literal['' @ literal_both grp
       @ '']) -> typing_extensions___Literal['' @ join '','' (map literal_str members) @ '']: ...''"

definition stringly_lines :: "string \<Rightarrow> FileDescriptorProto \<Rightarrow> DescriptorProto \<Rightarrow> string list" where
  "stringly_lines ind file desc =
     (let wo = wo_fields desc;
          hf = hf_fields file desc @ map fst wo;
          cf = cf_fields desc @ map fst wo
      in (if hf = [] then [] else [has_field_line ind (sort (map literal_both hf))])
         @ (if cf = [] then [] else [clear_field_line ind (sort (map literal_both cf))])
         @ concat (map (\<lambda>(grp, members).
              (if length wo > 1 then [ind @ ''@typing___overload''] else [])
              @ [which_oneof_line ind grp members]) (sort wo)))"

text \<open>Names as the protocol compiler accepts them: letters, digits and underscores.\<close>

definition identifier_char :: "char \<Rightarrow> bool" where
  "identifier_char c =
     (c = CHR ''_'' \<or> (CHR ''0'' \<le> c \<and> c \<le> CHR ''9'') \<or> (CHR ''A'' \<le> c \<and> c \<le> CHR ''Z'')
      \<or> (CHR ''a'' \<le> c \<and> c \<le> CHR ''z''))"

definition is_identifier :: "string \<Rightarrow> bool" where
  "is_identifier s = (s \<noteq> [] \<and> list_all identifier_char s)"







text \<open>Operations that write no line leave the text, the indentation and the input alone.\<close>

definition silent :: "PkgWriter \<Rightarrow> PkgWriter \<Rightarrow> bool" where
  "silent w w' =
     (lines w' = lines w \<and> indent w' = indent w \<and> fd w' = fd w \<and> descriptors w' = descriptors w)"

text \<open>
  Two enumerations of the same Python set, and two dictionaries with the same keys whose
  values enumerate the same sets.
\<close>

definition same_set :: "'a list \<Rightarrow> 'a list \<Rightarrow> bool" where
  "same_set xs ys = (distinct xs \<and> distinct ys \<and> set xs = set ys)"

definition same_dict :: "('k \<times> 'a list) list \<Rightarrow> ('k \<times> 'a list) list \<Rightarrow> bool" where
  "same_dict d e =
     (distinct (map fst d) \<and> distinct (map fst e)
      \<and> (\<forall>k. rel_option same_set (map_of d k) (map_of e k)))"

text \<open>Two writers that differ at most in the order their sets are enumerated in.\<close>

definition same_state :: "PkgWriter \<Rightarrow> PkgWriter \<Rightarrow> bool" where
  "same_state w v =
     (fd w = fd v \<and> descriptors w = descriptors v \<and> lines w = lines v \<and> indent w = indent v
      \<and> same_dict (imports' w) (imports' v)
      \<and> same_set (locals w) (locals v)
      \<and> same_set (builtin_vars w) (builtin_vars v)
      \<and> same_set (py2_builtin_vars w) (py2_builtin_vars v))"

text \<open>Two writers with the same sets, enumerated in different orders.\<close>

definition order_writer_a :: PkgWriter where
  "order_writer_a =
     (PkgWriter_init names_file names_descriptors)
       \<lparr>lines := [''x: builtin___int = ...''],
        imports' := [(''typing'', [(''Text'', ''typing___Text''), (''cast'', ''typing___cast'')]),
                     (''abc'', [(''ABCMeta'', ''abc___ABCMeta'')])],
        builtin_vars := [''int'', ''bool'']\<rparr>"

definition order_writer_b :: PkgWriter where
  "order_writer_b =
     (PkgWriter_init names_file names_descriptors)
       \<lparr>lines := [''x: builtin___int = ...''],
        imports' := [(''abc'', [(''ABCMeta'', ''abc___ABCMeta'')]),
                     (''typing'', [(''cast'', ''typing___cast''), (''Text'', ''typing___Text'')])],
        builtin_vars := [''bool'', ''int'']\<rparr>"

(*PROOFS*)

section \<open>The import registry is idempotent\<close>

lemma set_add_idem: "set_add x (set_add x xs) = set_add x xs"
  by (simp add: set_add_def)

lemma set_add_mem: "x \<in> set (set_add x xs)"
  by (simp add: set_add_def)

lemma set_add_distinct: "distinct xs \<Longrightarrow> distinct (set_add x xs)"
  by (simp add: set_add_def)

lemma set_set_add: "set (set_add x xs) = insert x (set xs)"
  by (auto simp: set_add_def)

lemma defaultdict_add_idem: "defaultdict_add k x (defaultdict_add k x d) = defaultdict_add k x d"
  by (induction d) (auto simp: set_add_def)

lemma defaultdict_add_keys: "set (map fst (defaultdict_add k x d)) = insert k (set (map fst d))"
proof (induction d)
  case Nil
  then show ?case by simp
next
  case (Cons a d)
  obtain k' xs where a: "a = (k', xs)" by (cases a)
  show ?case
  proof (cases "k = k'")
    case True
    with a show ?thesis by simp
  next
    case False
    with a Cons show ?thesis by (simp add: insert_commute)
  qed
qed

lemma defaultdict_add_distinct_keys:
  "distinct (map fst d) \<Longrightarrow> distinct (map fst (defaultdict_add k x d))"
proof (induction d)
  case Nil
  then show ?case by simp
next
  case (Cons a d)
  obtain k' xs where a: "a = (k', xs)" by (cases a)
  show ?case
  proof (cases "k = k'")
    case True
    with Cons a show ?thesis by simp
  next
    case False
    have "k' \<notin> set (map fst (defaultdict_add k x d))"
      using Cons.prems a False by (simp only: defaultdict_add_keys) auto
    with Cons a False show ?thesis by simp
  qed
qed

lemma defaultdict_add_lookup:
  "\<exists>items. (k, items) \<in> set (defaultdict_add k x d) \<and> x \<in> set items"
proof (induction d)
  case Nil
  then show ?case by simp
next
  case (Cons a d)
  obtain k' xs where a: "a = (k', xs)" by (cases a)
  show ?case
  proof (cases "k = k'")
    case True
    with a show ?thesis using set_add_mem [of x xs] by auto
  next
    case False
    from Cons obtain items where "(k, items) \<in> set (defaultdict_add k x d)" "x \<in> set items"
      by blast
    with a False show ?thesis by auto
  qed
qed

lemma defaultdict_add_wf:
  "imports_wf d \<Longrightarrow> imports_wf (defaultdict_add k (n, replace CHR ''.'' ''___'' k @ ''___'' @ n) d)"
  unfolding imports_wf_def
proof (induction d)
  case Nil
  then show ?case by simp
next
  case (Cons a d)
  obtain k' xs where a: "a = (k', xs)" by (cases a)
  have keys: "distinct (map fst (defaultdict_add k (n, replace CHR ''.'' ''___'' k @ ''___'' @ n) (a # d)))"
    using Cons.prems by (intro defaultdict_add_distinct_keys) simp
  show ?case
  proof (cases "k = k'")
    case True
    with Cons.prems a show ?thesis
      by (auto simp: set_add_distinct set_set_add list_all_iff)
  next
    case False
    with Cons a keys show ?thesis by auto
  qed
qed

lemma count_list_distinct_mem: "distinct xs \<Longrightarrow> x \<in> set xs \<Longrightarrow> count_list xs x = 1"
  by (induction xs) auto

lemma count_list_0: "x \<notin> set xs \<Longrightarrow> count_list xs x = 0"
  by (induction xs) auto

lemma import_item_inj:
  assumes "import_item (n1, p @ n1) = import_item (n2, p @ n2)"
  shows "n1 = n2"
proof -
  from assms have eq: "n1 @ ('' as '' @ p @ n1 @ '','') = n2 @ ('' as '' @ p @ n2 @ '','')"
    by (simp add: import_item_def)
  then have "length (n1 @ ('' as '' @ p @ n1 @ '','')) = length (n2 @ ('' as '' @ p @ n2 @ '',''))"
    by (rule arg_cong)
  then have "length n1 = length n2" by simp
  with eq show ?thesis by simp
qed

lemma count_list_map_inj:
  "inj_on f (insert x (set xs)) \<Longrightarrow> count_list (map f xs) (f x) = count_list xs x"
  by (induction xs) (auto simp: inj_on_def)

lemma count_list_sort: "count_list (sort xs) x = count_list xs x"
proof -
  have "count (mset (sort xs)) x = count (mset xs) x" by simp
  then show ?thesis by (simp only: count_mset)
qed

lemma import_block_count:
  assumes d: "distinct items"
    and m: "list_all (\<lambda>(name, mangled). mangled = p @ name) items"
    and x: "(n, p @ n) \<in> set items"
  shows "count_list (import_block (pkg, items)) (import_item (n, p @ n)) = 1"
proof -
  have inj: "inj_on import_item (insert (n, p @ n) (set items))"
  proof (rule inj_onI)
    fix a b
    assume a: "a \<in> insert (n, p @ n) (set items)" and b: "b \<in> insert (n, p @ n) (set items)"
      and eq: "import_item a = import_item b"
    from a m x obtain n1 where a': "a = (n1, p @ n1)" by (cases a) (auto simp: list_all_iff)
    from b m x obtain n2 where b': "b = (n2, p @ n2)" by (cases b) (auto simp: list_all_iff)
    from eq a' b' have "n1 = n2" using import_item_inj by blast
    with a' b' show "a = b" by simp
  qed
  have "count_list (map import_item (sort items)) (import_item (n, p @ n)) = count_list (sort items) (n, p @ n)"
    using inj by (intro count_list_map_inj) simp
  also have "\<dots> = 1"
    using d x by (simp add: count_list_sort count_list_distinct_mem)
  finally show ?thesis
    by (simp add: import_block_def import_item_def)
qed

lemma do_import_twice: "snd (do_import path name (snd (do_import path name w))) = snd (do_import path name w)"
  by (simp add: do_import_def Let_def defaultdict_add_idem)

lemma do_import_funpow:
  "((\<lambda>v. snd (do_import path name v)) ^^ Suc n) w = snd (do_import path name w)"
  by (induction n) (simp_all add: do_import_twice)

text \<open>
  Claim C4. Requesting the same (module path, symbol) pair any number of times returns the
  same alias, which is the module path with its separators replaced, then the symbol;
  the writer ends in the state one request leaves; the rendered import block lists the
  modules in sorted order without repetition, and the block of the module lists its
  symbols in sorted order with exactly one line for the pair.
\<close>

theorem import_idempotent:
  assumes "imports_wf (imports' w)"
  shows "let imp = replace CHR ''/'' ''.'' path;
             alias = replace CHR ''.'' ''___'' imp @ ''___'' @ name;
             w' = ((\<lambda>v. snd (do_import path name v)) ^^ Suc n) w;
             pkgs = sort_key fst (imports' w')
         in (\<forall>v. fst (do_import path name v) = alias)
          \<and> w' = snd (do_import path name w)
          \<and> write_imports w' = ''import sys'' # concat (map import_block pkgs) @ [[]]
          \<and> sorted (map fst pkgs) \<and> distinct (map fst pkgs)
          \<and> (\<exists>items. (imp, items) \<in> set pkgs \<and> count_list items (name, alias) = 1
                \<and> import_block (imp, items) =
                    (''from '' @ imp @ '' import ('') # map import_item (sort items) @ ['')\<newline>'']
                \<and> sorted (sort items)
                \<and> count_list (import_block (imp, items)) (import_item (name, alias)) = 1)"
proof -
  define imp where "imp = replace CHR ''/'' ''.'' path"
  define p where "p = replace CHR ''.'' ''___'' imp @ ''___''"
  define w' where "w' = ((\<lambda>v. snd (do_import path name v)) ^^ Suc n) w"
  have w': "w' = snd (do_import path name w)"
    unfolding w'_def by (rule do_import_funpow)
  have imps: "imports' w' = defaultdict_add imp (name, p @ name) (imports' w)"
    by (simp add: w' do_import_def Let_def imp_def p_def)
  have wf: "imports_wf (imports' w')"
    unfolding imps p_def using assms defaultdict_add_wf [of "imports' w" imp name] by simp
  obtain items where items: "(imp, items) \<in> set (imports' w')" "(name, p @ name) \<in> set items"
    unfolding imps using defaultdict_add_lookup [of imp "(name, p @ name)" "imports' w"] by blast
  from wf items(1) have d: "distinct items"
    and m: "list_all (\<lambda>(name, mangled). mangled = p @ name) items"
    by (auto simp: imports_wf_def list_all_iff p_def)
  have c1: "count_list items (name, p @ name) = 1"
    using d items(2) by (rule count_list_distinct_mem)
  have c2: "count_list (import_block (imp, items)) (import_item (name, p @ name)) = 1"
    using d m items(2) by (rule import_block_count)
  have keys: "distinct (map fst (sort_key fst (imports' w')))"
  proof -
    have "mset (map fst (sort_key fst (imports' w'))) = mset (map fst (imports' w'))" by simp
    then have "distinct (map fst (sort_key fst (imports' w'))) = distinct (map fst (imports' w'))"
      by (rule mset_eq_imp_distinct_iff)
    with wf show ?thesis by (simp add: imports_wf_def)
  qed
  have al: "\<forall>v. fst (do_import path name v) = p @ name"
    by (simp add: do_import_def Let_def imp_def p_def)
  show ?thesis
    unfolding Let_def w'_def [symmetric] imp_def [symmetric]
    using al w' keys items(1) c1 c2
    by (auto simp: p_def write_imports_def import_block_def intro!: exI [of _ items])
qed

theorem import_idempotent_witness:
  "let w = PkgWriter_init \<lparr>fd_name = ''p.proto'', fd_package = ''pkg'', fd_syntax = ''proto3'',
              fd_message_type = [], fd_enum_type = [], fd_service = [], fd_extension = [],
              fd_py_generic_services = False\<rparr>
              \<lparr>files = [], to_generate = [], messages = [], message_to_fd = []\<rparr>;
       w' = ((\<lambda>v. snd (do_import ''google/protobuf.message'' ''Message'' v)) ^^ Suc 2) w
   in imports_wf (imports' w)
    \<and> fst (do_import ''google/protobuf.message'' ''Message'' w') = ''google___protobuf___message___Message''
    \<and> w' = snd (do_import ''google/protobuf.message'' ''Message'' w)
    \<and> write_imports (snd (do_import ''google/protobuf.message'' ''Message'' w)) =
         [''import sys'', ''from google.protobuf.message import ('',
          ''    Message as google___protobuf___message___Message,'', '')\<newline>'', []]"
proof -
  let ?w = "PkgWriter_init \<lparr>fd_name = ''p.proto'', fd_package = ''pkg'', fd_syntax = ''proto3'',
              fd_message_type = [], fd_enum_type = [], fd_service = [], fd_extension = [],
              fd_py_generic_services = False\<rparr>
              \<lparr>files = [], to_generate = [], messages = [], message_to_fd = []\<rparr>"
  have wf: "imports_wf (imports' ?w)"
    by (simp add: imports_wf_def PkgWriter_init_def)
  from import_idempotent [OF wf, of "''google/protobuf.message''" "''Message''" 2]
  have same: "((\<lambda>v. snd (do_import ''google/protobuf.message'' ''Message'' v)) ^^ Suc 2) ?w
      = snd (do_import ''google/protobuf.message'' ''Message'' ?w)"
    unfolding Let_def by (elim conjE)
  have al: "\<And>v. fst (do_import ''google/protobuf.message'' ''Message'' v) = ''google___protobuf___message___Message''"
    by (simp add: do_import_def replace_def Let_def)
  have r: "write_imports (snd (do_import ''google/protobuf.message'' ''Message'' ?w)) =
         [''import sys'', ''from google.protobuf.message import ('',
          ''    Message as google___protobuf___message___Message,'', '')\<newline>'', []]"
    by (simp add: do_import_def replace_def PkgWriter_init_def Let_def write_imports_def
        import_block_def import_item_def)
  show ?thesis
    unfolding Let_def using wf same al r by blast
qed

section \<open>The table of field types\<close>

lemmas type_tags =
  TYPE_DOUBLE_def TYPE_FLOAT_def TYPE_INT64_def TYPE_UINT64_def TYPE_INT32_def TYPE_FIXED64_def
  TYPE_FIXED32_def TYPE_BOOL_def TYPE_STRING_def TYPE_GROUP_def TYPE_MESSAGE_def TYPE_BYTES_def
  TYPE_UINT32_def TYPE_ENUM_def TYPE_SFIXED32_def TYPE_SFIXED64_def TYPE_SINT32_def TYPE_SINT64_def

lemma python_type_unfold:
  "python_type field w =
     (case map_of (python_type_mapping ''builtin___float'' ''builtin___int'' ''builtin___bool''
                     ''builtin___bytes'' field) (f_type field) of
        None \<Rightarrow> Inl (AssertionError (''Unrecognized type: '' @ str_int (f_type field)))
      | Some f \<Rightarrow> f (after_builtins w))"
  by (simp add: python_type_def after_builtins_def builtin_def PY2_ONLY_BUILTINS_def
      mangle_builtin_def Let_def split_def cong: option.case_cong)

text \<open>
  Claim C5. The table of \<open>python_type\<close> holds exactly the eighteen type tags: the
  fifteen scalar tags, each with its fixed alias, and the enum, message and group tags,
  resolved through \<open>_import_message\<close>. For every other tag \<open>python_type\<close> fails with
  the assertion error "Unrecognized type" and returns no expression.
\<close>

theorem python_type_table:
  "set (map fst (python_type_mapping b_float b_int b_bool b_bytes field)) =
      {TYPE_DOUBLE, TYPE_FLOAT, TYPE_INT64, TYPE_UINT64, TYPE_FIXED64, TYPE_SFIXED64, TYPE_SINT64,
       TYPE_INT32, TYPE_UINT32, TYPE_FIXED32, TYPE_SFIXED32, TYPE_SINT32, TYPE_BOOL, TYPE_STRING,
       TYPE_BYTES, TYPE_ENUM, TYPE_MESSAGE, TYPE_GROUP}
   \<and> (f_type field \<in> {TYPE_DOUBLE, TYPE_FLOAT}
        \<longrightarrow> python_type field w = Inr (''builtin___float'', after_builtins w))
   \<and> (f_type field \<in> {TYPE_INT64, TYPE_UINT64, TYPE_FIXED64, TYPE_SFIXED64, TYPE_SINT64,
                        TYPE_INT32, TYPE_UINT32, TYPE_FIXED32, TYPE_SFIXED32, TYPE_SINT32}
        \<longrightarrow> python_type field w = Inr (''builtin___int'', after_builtins w))
   \<and> (f_type field = TYPE_BOOL
        \<longrightarrow> python_type field w = Inr (''builtin___bool'', after_builtins w))
   \<and> (f_type field = TYPE_STRING
        \<longrightarrow> python_type field w = Inr (do_import ''typing'' ''Text'' (after_builtins w))
          \<and> fst (do_import ''typing'' ''Text'' (after_builtins w)) = ''typing___Text'')
   \<and> (f_type field = TYPE_BYTES
        \<longrightarrow> python_type field w = Inr (''builtin___bytes'', after_builtins w))
   \<and> (f_type field = TYPE_ENUM
        \<longrightarrow> python_type field w = import_message (f_type_name field @ ''Value'') (after_builtins w))
   \<and> (f_type field \<in> {TYPE_MESSAGE, TYPE_GROUP}
        \<longrightarrow> python_type field w = import_message (f_type_name field) (after_builtins w))
   \<and> (f_type field \<notin> {TYPE_DOUBLE, TYPE_FLOAT, TYPE_INT64, TYPE_UINT64, TYPE_FIXED64, TYPE_SFIXED64,
                        TYPE_SINT64, TYPE_INT32, TYPE_UINT32, TYPE_FIXED32, TYPE_SFIXED32,
                        TYPE_SINT32, TYPE_BOOL, TYPE_STRING, TYPE_BYTES, TYPE_ENUM, TYPE_MESSAGE,
                        TYPE_GROUP}
        \<longrightarrow> python_type field w =
              Inl (AssertionError (''Unrecognized type: '' @ str_int (f_type field))))"
proof -
  have keys: "set (map fst (python_type_mapping b_float b_int b_bool b_bytes field)) =
      {TYPE_DOUBLE, TYPE_FLOAT, TYPE_INT64, TYPE_UINT64, TYPE_FIXED64, TYPE_SFIXED64, TYPE_SINT64,
       TYPE_INT32, TYPE_UINT32, TYPE_FIXED32, TYPE_SFIXED32, TYPE_SINT32, TYPE_BOOL, TYPE_STRING,
       TYPE_BYTES, TYPE_ENUM, TYPE_MESSAGE, TYPE_GROUP}"
    by (simp add: python_type_mapping_def)
  have text_alias: "fst (do_import ''typing'' ''Text'' v) = ''typing___Text''" for v
    by (simp add: do_import_def replace_def Let_def)
  have rest: "f_type field \<notin> {TYPE_DOUBLE, TYPE_FLOAT, TYPE_INT64, TYPE_UINT64, TYPE_FIXED64, TYPE_SFIXED64,
                        TYPE_SINT64, TYPE_INT32, TYPE_UINT32, TYPE_FIXED32, TYPE_SFIXED32,
                        TYPE_SINT32, TYPE_BOOL, TYPE_STRING, TYPE_BYTES, TYPE_ENUM, TYPE_MESSAGE,
                        TYPE_GROUP}
        \<Longrightarrow> python_type field w =
              Inl (AssertionError (''Unrecognized type: '' @ str_int (f_type field)))"
    by (simp add: python_type_unfold python_type_mapping_def)
  show ?thesis
    using keys text_alias rest
    by (auto simp: python_type_unfold python_type_mapping_def type_tags)
qed

theorem python_type_table_witness:
  "(let field = \<lparr>f_name = ''x'', f_label = 1, f_type = TYPE_SINT32, f_type_name = [],
                  f_oneof_index = None\<rparr>
    in f_type field \<in> {TYPE_INT64, TYPE_UINT64, TYPE_FIXED64, TYPE_SFIXED64, TYPE_SINT64,
                        TYPE_INT32, TYPE_UINT32, TYPE_FIXED32, TYPE_SFIXED32, TYPE_SINT32}
       \<and> python_type field (PkgWriter_init names_file names_descriptors) = Inr (''builtin___int'', after_builtins (PkgWriter_init names_file names_descriptors)))
   \<and> (let field = \<lparr>f_name = ''x'', f_label = 1, f_type = 19, f_type_name = [],
                  f_oneof_index = None\<rparr>
    in f_type field \<notin> {TYPE_DOUBLE, TYPE_FLOAT, TYPE_INT64, TYPE_UINT64, TYPE_FIXED64, TYPE_SFIXED64,
                        TYPE_SINT64, TYPE_INT32, TYPE_UINT32, TYPE_FIXED32, TYPE_SFIXED32,
                        TYPE_SINT32, TYPE_BOOL, TYPE_STRING, TYPE_BYTES, TYPE_ENUM, TYPE_MESSAGE,
                        TYPE_GROUP}
       \<and> python_type field (PkgWriter_init names_file names_descriptors) = Inl (AssertionError ''Unrecognized type: 19''))"
proof -
  let ?a = "\<lparr>f_name = ''x'', f_label = 1, f_type = TYPE_SINT32, f_type_name = [],
                  f_oneof_index = None\<rparr>"
  let ?b = "\<lparr>f_name = ''x'', f_label = 1, f_type = 19, f_type_name = [],
                  f_oneof_index = None\<rparr>"
  have a: "f_type ?a \<in> {TYPE_INT64, TYPE_UINT64, TYPE_FIXED64, TYPE_SFIXED64, TYPE_SINT64,
                        TYPE_INT32, TYPE_UINT32, TYPE_FIXED32, TYPE_SFIXED32, TYPE_SINT32}"
    by simp
  have b: "f_type ?b \<notin> {TYPE_DOUBLE, TYPE_FLOAT, TYPE_INT64, TYPE_UINT64, TYPE_FIXED64, TYPE_SFIXED64,
                        TYPE_SINT64, TYPE_INT32, TYPE_UINT32, TYPE_FIXED32, TYPE_SFIXED32,
                        TYPE_SINT32, TYPE_BOOL, TYPE_STRING, TYPE_BYTES, TYPE_ENUM, TYPE_MESSAGE,
                        TYPE_GROUP}"
    by (simp add: type_tags)
  have s: "str_int 19 = ''19''"
    by code_simp
  from python_type_table [of _ _ _ _ ?a "PkgWriter_init names_file names_descriptors"] a
  have ra: "python_type ?a (PkgWriter_init names_file names_descriptors) = Inr (''builtin___int'', after_builtins (PkgWriter_init names_file names_descriptors))" by blast
  from python_type_table [of _ _ _ _ ?b "PkgWriter_init names_file names_descriptors"] b
  have rb: "python_type ?b (PkgWriter_init names_file names_descriptors) = Inl (AssertionError (''Unrecognized type: '' @ str_int (f_type ?b)))"
    by blast
  show ?thesis
    unfolding Let_def using a b ra rb s by simp
qed

section \<open>The generated files\<close>

lemma rsplit1_no_sep: "sep \<notin> set s \<Longrightarrow> rsplit1 sep s = [s]"
  by (simp add: rsplit1_def)

lemma write_grpc_services_no_sep:
  "CHR ''/'' \<notin> set (fd_name (fd w)) \<Longrightarrow> write_grpc_services services w = Inl IndexError"
  by (simp add: write_grpc_services_def rsplit1_no_sep)

lemma write_messages_Nil:
  "write_messages [] p w = Inr (snd (do_import ''google.protobuf.message'' ''Message'' w))"
  by (subst write_messages.simps) (simp add: split_def)

text \<open>
  Claim C9. For the file \<open>p.proto\<close>, whose name holds no directory separator, the
  service-stub generator raises \<open>IndexError\<close> while it computes the re-export line,
  whatever the services are: no output is produced. The general generator does produce
  \<open>p_pb2.pyi\<close> for the same file.
\<close>

theorem grpc_reexport_aborts_without_directory:
  "write_grpc_services services (PkgWriter_init grpc_bug_file ds) = Inl IndexError
   \<and> generate_mypy_grpc_stubs
        \<lparr>files = [(''p.proto'', grpc_bug_file)], to_generate = [(''p.proto'', grpc_bug_file)],
         messages = [], message_to_fd = []\<rparr> [] = Inl IndexError
   \<and> (\<exists>content. generate_mypy_stubs
        \<lparr>files = [(''p.proto'', grpc_bug_file)], to_generate = [(''p.proto'', grpc_bug_file)],
         messages = [], message_to_fd = []\<rparr> [] = Inr [(''p_pb2.pyi'', content)])"
proof -
  have a: "write_grpc_services services' (PkgWriter_init grpc_bug_file ds') = Inl IndexError"
    for ds' services'
    by (rule write_grpc_services_no_sep) (simp add: PkgWriter_init_def grpc_bug_file_def)
  have b: "generate_mypy_grpc_stubs
        \<lparr>files = [(''p.proto'', grpc_bug_file)], to_generate = [(''p.proto'', grpc_bug_file)],
         messages = [], message_to_fd = []\<rparr> [] = Inl IndexError"
    by (simp add: generate_mypy_grpc_stubs_def a)
  have c: "\<exists>content. generate_mypy_stubs
        \<lparr>files = [(''p.proto'', grpc_bug_file)], to_generate = [(''p.proto'', grpc_bug_file)],
         messages = [], message_to_fd = []\<rparr> [] = Inr [(''p_pb2.pyi'', content)]"
    by (simp add: generate_mypy_stubs_def grpc_bug_file_def write_messages_Nil write_enums_def
        write_extensions_def endswith_def drop_last_def replace_def suffix_def)
  from a b c show ?thesis by blast
qed

section \<open>The names and the header of the generated files\<close>

lemma endswith_proto: "endswith s ''.proto'' \<Longrightarrow> \<exists>stem. s = stem @ ''.proto'' \<and> drop_last 6 s = stem"
  by (auto simp: endswith_def suffix_def drop_last_def)

lemma for_each_response:
  assumes step: "\<And>x r r'. body x r = Inr r' \<Longrightarrow> \<exists>y. r' = r @ [y] \<and> P x y"
    and run: "for_each body xs r = Inr r'"
  shows "\<exists>ys. r' = r @ ys \<and> list_all2 P xs ys"
  using run
proof (induction xs arbitrary: r)
  case Nil
  then show ?case by simp
next
  case (Cons x xs)
  from Cons.prems obtain r1 where r1: "body x r = Inr r1" and rest: "for_each body xs r1 = Inr r'"
    by (auto split: sum.splits)
  from step [OF r1] obtain y where y: "r1 = r @ [y]" "P x y" by blast
  from Cons.IH [OF rest] obtain ys where ys: "r' = r1 @ ys" "list_all2 P xs ys" by blast
  from y ys have "r' = r @ (y # ys)" "list_all2 P (x # xs) (y # ys)" by simp_all
  then show ?case by blast
qed

text \<open>
  Claim C7. When a generator returns, the response is the given one followed by one entry
  per file to generate, in order. The name of a file ends in \<open>.proto\<close>; the entry's name
  is the file's name without that suffix, every hyphen replaced by an underscore and
  every dot by a slash, followed by \<open>_pb2.pyi\<close> (general stubs) or \<open>_pb2_grpc.pyi\<close>
  (service stubs); the entry's content starts with the header line.
\<close>

theorem generated_file_names:
  "(generate_mypy_stubs ds response = Inr response' \<longrightarrow>
      (\<exists>entries. response' = response @ entries \<and>
         list_all2 (\<lambda>(name, file) (out, content).
            (\<exists>stem. fd_name file = stem @ ''.proto''
               \<and> out = replace CHR ''.'' ''/'' (replace CHR ''-'' ''_'' stem) @ ''_pb2.pyi'')
            \<and> prefix HEADER content)
           (to_generate ds) entries))
   \<and> (generate_mypy_grpc_stubs ds response = Inr response' \<longrightarrow>
      (\<exists>entries. response' = response @ entries \<and>
         list_all2 (\<lambda>(name, file) (out, content).
            (\<exists>stem. fd_name file = stem @ ''.proto''
               \<and> out = replace CHR ''.'' ''/'' (replace CHR ''-'' ''_'' stem) @ ''_pb2_grpc.pyi'')
            \<and> prefix HEADER content)
           (to_generate ds) entries))
   \<and> HEADER = ''# @generated by generate_proto_mypy_stubs.py.  Do not edit!\<newline>''"
proof (intro conjI impI)
  assume run: "generate_mypy_stubs ds response = Inr response'"
  show "\<exists>entries. response' = response @ entries \<and>
         list_all2 (\<lambda>(name, file) (out, content).
            (\<exists>stem. fd_name file = stem @ ''.proto''
               \<and> out = replace CHR ''.'' ''/'' (replace CHR ''-'' ''_'' stem) @ ''_pb2.pyi'')
            \<and> prefix HEADER content)
           (to_generate ds) entries"
  proof (rule for_each_response [OF _ run [unfolded generate_mypy_stubs_def]])
    fix x :: "string \<times> FileDescriptorProto" and r r' :: "(string \<times> string) list"
    obtain n f where x: "x = (n, f)" by (cases x)
    assume "(case x of (name, file) \<Rightarrow> \<lambda>response.
        let pkg_writer = PkgWriter_init file ds;
            pkg_writer = write_module_attributes pkg_writer;
            pkg_writer = write_enums (fd_enum_type file) [] pkg_writer
        in (case write_messages (fd_message_type file) [] pkg_writer of
              Inl e \<Rightarrow> Inl e
            | Inr pkg_writer \<Rightarrow>
                let pkg_writer = write_extensions (fd_extension file) pkg_writer
                in (case (if fd_py_generic_services file
                          then write_services (fd_service file) pkg_writer
                          else Inr pkg_writer) of
                      Inl e \<Rightarrow> Inl e
                    | Inr pkg_writer \<Rightarrow>
                        if name \<noteq> fd_name file then Inl (AssertionError [])
                        else if \<not> endswith (fd_name file) ''.proto'' then Inl (AssertionError [])
                        else
                          Inr (response @
                            [(replace CHR ''.'' ''/'' (replace CHR ''-'' ''_'' (drop_last 6 (fd_name file)))
                                @ ''_pb2.pyi'',
                              HEADER @ PkgWriter_write pkg_writer)])))) r = Inr r'"
    then show "\<exists>y. r' = r @ [y] \<and> (case x of (name, file) \<Rightarrow> \<lambda>(out, content).
            (\<exists>stem. fd_name file = stem @ ''.proto''
               \<and> out = replace CHR ''.'' ''/'' (replace CHR ''-'' ''_'' stem) @ ''_pb2.pyi'')
            \<and> prefix HEADER content) y"
      unfolding x Let_def
      by (auto split: sum.splits if_splits dest!: endswith_proto)
  qed
next
  assume run: "generate_mypy_grpc_stubs ds response = Inr response'"
  show "\<exists>entries. response' = response @ entries \<and>
         list_all2 (\<lambda>(name, file) (out, content).
            (\<exists>stem. fd_name file = stem @ ''.proto''
               \<and> out = replace CHR ''.'' ''/'' (replace CHR ''-'' ''_'' stem) @ ''_pb2_grpc.pyi'')
            \<and> prefix HEADER content)
           (to_generate ds) entries"
  proof (rule for_each_response [OF _ run [unfolded generate_mypy_grpc_stubs_def]])
    fix x :: "string \<times> FileDescriptorProto" and r r' :: "(string \<times> string) list"
    obtain n f where x: "x = (n, f)" by (cases x)
    assume "(case x of (name, file) \<Rightarrow> \<lambda>response.
        let pkg_writer = PkgWriter_init file ds
        in (case write_grpc_services (fd_service file) pkg_writer of
              Inl e \<Rightarrow> Inl e
            | Inr pkg_writer \<Rightarrow>
                if name \<noteq> fd_name file then Inl (AssertionError [])
                else if \<not> endswith (fd_name file) ''.proto'' then Inl (AssertionError [])
                else
                  Inr (response @
                    [(replace CHR ''.'' ''/'' (replace CHR ''-'' ''_'' (drop_last 6 (fd_name file)))
                        @ ''_pb2_grpc.pyi'',
                      HEADER @ PkgWriter_write pkg_writer)]))) r = Inr r'"
    then show "\<exists>y. r' = r @ [y] \<and> (case x of (name, file) \<Rightarrow> \<lambda>(out, content).
            (\<exists>stem. fd_name file = stem @ ''.proto''
               \<and> out = replace CHR ''.'' ''/'' (replace CHR ''-'' ''_'' stem) @ ''_pb2_grpc.pyi'')
            \<and> prefix HEADER content) y"
      unfolding x Let_def
      by (auto split: sum.splits if_splits dest!: endswith_proto)
  qed
next
  show "HEADER = ''# @generated by generate_proto_mypy_stubs.py.  Do not edit!\<newline>''"
    by (simp add: HEADER_def)
qed

theorem generated_file_names_witness:
  "(\<exists>r. generate_mypy_stubs names_descriptors [] = Inr r
        \<and> map fst r = [''a/p_q/v1_pb2.pyi'']
        \<and> (\<exists>entries. r = [] @ entries \<and>
             list_all2 (\<lambda>(name, file) (out, content).
                (\<exists>stem. fd_name file = stem @ ''.proto''
                   \<and> out = replace CHR ''.'' ''/'' (replace CHR ''-'' ''_'' stem) @ ''_pb2.pyi'')
                \<and> prefix HEADER content)
               (to_generate names_descriptors) entries))
   \<and> (\<exists>r. generate_mypy_grpc_stubs names_descriptors [] = Inr r
        \<and> map fst r = [''a/p_q/v1_pb2_grpc.pyi'']
        \<and> (\<exists>entries. r = [] @ entries \<and>
             list_all2 (\<lambda>(name, file) (out, content).
                (\<exists>stem. fd_name file = stem @ ''.proto''
                   \<and> out = replace CHR ''.'' ''/'' (replace CHR ''-'' ''_'' stem) @ ''_pb2_grpc.pyi'')
                \<and> prefix HEADER content)
               (to_generate names_descriptors) entries))"
proof -
  obtain c1 where r1: "generate_mypy_stubs names_descriptors [] = Inr [(''a/p_q/v1_pb2.pyi'', c1)]"
    by (simp add: generate_mypy_stubs_def names_descriptors_def names_file_def write_messages_Nil
        write_enums_def write_extensions_def endswith_def drop_last_def replace_def suffix_def)
  have sp: "rsplit1 CHR ''/'' ''a/p-q.v1.proto'' = [''a'', ''p-q.v1.proto'']"
    by (simp add: rsplit1_def)
  obtain c2 where r2: "generate_mypy_grpc_stubs names_descriptors [] = Inr [(''a/p_q/v1_pb2_grpc.pyi'', c2)]"
    by (simp add: generate_mypy_grpc_stubs_def names_descriptors_def names_file_def
        write_grpc_services_def PkgWriter_init_def sp endswith_def drop_last_def replace_def
        suffix_def)
  from generated_file_names [of names_descriptors "[]" "[(''a/p_q/v1_pb2.pyi'', c1)]"] r1
  have e1: "\<exists>entries. [(''a/p_q/v1_pb2.pyi'', c1)] = [] @ entries \<and>
             list_all2 (\<lambda>(name, file) (out, content).
                (\<exists>stem. fd_name file = stem @ ''.proto''
                   \<and> out = replace CHR ''.'' ''/'' (replace CHR ''-'' ''_'' stem) @ ''_pb2.pyi'')
                \<and> prefix HEADER content)
               (to_generate names_descriptors) entries"
    by blast
  from generated_file_names [of names_descriptors "[]" "[(''a/p_q/v1_pb2_grpc.pyi'', c2)]"] r2
  have e2: "\<exists>entries. [(''a/p_q/v1_pb2_grpc.pyi'', c2)] = [] @ entries \<and>
             list_all2 (\<lambda>(name, file) (out, content).
                (\<exists>stem. fd_name file = stem @ ''.proto''
                   \<and> out = replace CHR ''.'' ''/'' (replace CHR ''-'' ''_'' stem) @ ''_pb2_grpc.pyi'')
                \<and> prefix HEADER content)
               (to_generate names_descriptors) entries"
    by blast
  from r1 e1 have "\<exists>r. generate_mypy_stubs names_descriptors [] = Inr r
        \<and> map fst r = [''a/p_q/v1_pb2.pyi'']
        \<and> (\<exists>entries. r = [] @ entries \<and>
             list_all2 (\<lambda>(name, file) (out, content).
                (\<exists>stem. fd_name file = stem @ ''.proto''
                   \<and> out = replace CHR ''.'' ''/'' (replace CHR ''-'' ''_'' stem) @ ''_pb2.pyi'')
                \<and> prefix HEADER content)
               (to_generate names_descriptors) entries)"
    by (intro exI [of _ "[(''a/p_q/v1_pb2.pyi'', c1)]"]) simp
  moreover from r2 e2 have "\<exists>r. generate_mypy_grpc_stubs names_descriptors [] = Inr r
        \<and> map fst r = [''a/p_q/v1_pb2_grpc.pyi'']
        \<and> (\<exists>entries. r = [] @ entries \<and>
             list_all2 (\<lambda>(name, file) (out, content).
                (\<exists>stem. fd_name file = stem @ ''.proto''
                   \<and> out = replace CHR ''.'' ''/'' (replace CHR ''-'' ''_'' stem) @ ''_pb2_grpc.pyi'')
                \<and> prefix HEADER content)
               (to_generate names_descriptors) entries)"
    by (intro exI [of _ "[(''a/p_q/v1_pb2_grpc.pyi'', c2)]"]) simp
  ultimately show ?thesis by blast
qed

section \<open>What the writer's operations change\<close>

lemma write_line_simps [simp]:
  "lines (write_line l w) = lines w @ [if l = [] then [] else indent w @ l]"
  "indent (write_line l w) = indent w"
  "fd (write_line l w) = fd w"
  "descriptors (write_line l w) = descriptors w"
  "imports' (write_line l w) = imports' w"
  "builtin_vars (write_line l w) = builtin_vars w"
  "py2_builtin_vars (write_line l w) = py2_builtin_vars w"
  by (simp_all add: write_line_def)

lemma do_import_simps [simp]:
  "fst (do_import path name w) = replace CHR ''.'' ''___'' (replace CHR ''/'' ''.'' path) @ ''___'' @ name"
  "lines (snd (do_import path name w)) = lines w"
  "indent (snd (do_import path name w)) = indent w"
  "fd (snd (do_import path name w)) = fd w"
  "descriptors (snd (do_import path name w)) = descriptors w"
  by (simp_all add: do_import_def Let_def)

lemma builtin_simps [simp]:
  "fst (builtin name w) = ''builtin___'' @ name"
  "lines (snd (builtin name w)) = lines w"
  "indent (snd (builtin name w)) = indent w"
  "fd (snd (builtin name w)) = fd w"
  "descriptors (snd (builtin name w)) = descriptors w"
  by (simp_all add: builtin_def mangle_builtin_def)

lemma indent_enter_simps [simp]:
  "lines (indent_enter w) = lines w"
  "indent (indent_enter w) = indent w @ ''    ''"
  "fd (indent_enter w) = fd w"
  "descriptors (indent_enter w) = descriptors w"
  by (simp_all add: indent_enter_def)

lemma indent_exit_simps [simp]:
  "lines (indent_exit w) = lines w"
  "indent (indent_exit w) = drop_last 4 (indent w)"
  "fd (indent_exit w) = fd w"
  "descriptors (indent_exit w) = descriptors w"
  by (simp_all add: indent_exit_def)

lemma replace_typing_extensions [simp]:
  "replace CHR ''.'' ''___'' (replace CHR ''/'' ''.'' ''typing_extensions'') = ''typing_extensions''"
  "replace CHR ''.'' ''___'' (replace CHR ''/'' ''.'' ''typing'') = ''typing''"
  by (simp_all add: replace_def)

section \<open>The stringly-typed accessors\<close>

lemma dict_set_keys: "set (map fst (dict_set k v d)) = insert k (set (map fst d))"
proof (induction d)
  case Nil
  then show ?case by simp
next
  case (Cons a d)
  obtain k' v' where a: "a = (k', v')" by (cases a)
  show ?case
  proof (cases "k = k'")
    case True
    with a show ?thesis by simp
  next
    case False
    with a Cons show ?thesis by (simp add: insert_commute)
  qed
qed

lemma fold_dict_set_keys:
  "set (map fst (fold (\<lambda>(idx, oneof) d. dict_set oneof (g idx) d) xs d)) =
     snd ` set xs \<union> set (map fst d)"
proof (induction xs arbitrary: d)
  case Nil
  then show ?case by simp
next
  case (Cons x xs)
  obtain i n where x: "x = (i, n)" by (cases x)
  show ?case
    unfolding x by (simp add: Cons.IH dict_set_keys del: set_map)
qed

lemma wo_fields_keys: "set (map fst (wo_fields desc)) = set (m_oneof_decl desc)"
proof -
  have "snd ` set (enumerate 0 (m_oneof_decl desc)) = set (m_oneof_decl desc)"
    by (metis list.set_map map_snd_enumerate)
  then show ?thesis
    unfolding wo_fields_def by (simp only: fold_dict_set_keys) simp
qed

lemma fold_lines_concat:
  assumes "\<And>x v. lines (f x v) = lines v @ g (indent v) x"
    and "\<And>x v. indent (f x v) = indent v"
  shows "lines (fold f xs w) = lines w @ concat (map (g (indent w)) xs)
         \<and> indent (fold f xs w) = indent w"
proof (induction xs arbitrary: w)
  case Nil
  then show ?case by simp
next
  case (Cons x xs)
  from Cons [of "f x w"] show ?case
    by (simp add: assms)
qed

lemma write_stringly_typed_fields_lines:
  "lines (write_stringly_typed_fields desc w) = lines w @ stringly_lines (indent w) (fd w) desc"
proof -
  let ?step = "\<lambda>(wo_field, members) w.
                 let w = (if length (wo_fields desc) > 1 then
                            let (overload, w) = do_import ''typing'' ''overload'' w
                            in write_line (''@'' @ overload) w
                          else w);
                     (literal, w) = do_import ''typing_extensions'' ''Literal'' w;
                     (literal', w) = do_import ''typing_extensions'' ''Literal'' w
                 in write_line
                      (''def WhichOneof(self, oneof_group: '' @ literal @ ''['' @ literal_both wo_field
                         @ '']) -> '' @ literal' @ ''['' @ join '','' (map literal_str members)
                         @ '']: ...'') w"
  let ?g = "\<lambda>ind (grp, members).
              (if length (wo_fields desc) > 1 then [ind @ ''@typing___overload''] else [])
              @ [which_oneof_line ind grp members]"
  have step1: "lines (?step x v) = lines v @ ?g (indent v) x" for x v
    by (cases x) (simp add: Let_def split_def which_oneof_line_def)
  have step2: "indent (?step x v) = indent v" for x v
    by (cases x) (simp add: Let_def split_def)
  have loop: "lines (fold ?step xs v) = lines v @ concat (map (?g (indent v)) xs)" for xs v
    using fold_lines_concat [of ?step ?g, OF step1 step2] by blast
  define hf where "hf = hf_fields (fd w) desc @ map fst (wo_fields desc)"
  define cf where "cf = cf_fields desc @ map fst (wo_fields desc)"
  define w1 where "w1 = (if hf \<noteq> [] then write_line
      (''def HasField(self, field_name: typing_extensions___Literal[''
         @ join '','' (sort (map literal_both hf)) @ '']) -> builtin___bool: ...'')
      (snd (builtin ''bool'' (snd (do_import ''typing_extensions'' ''Literal'' w)))) else w)"
  define w2 where "w2 = (if cf \<noteq> [] then
      write_line (''def ClearField(self, field_name: typing_extensions___Literal[''
         @ join '','' (sort (map literal_both cf)) @ '']) -> None: ...'')
        (snd (do_import ''typing_extensions'' ''Literal'' w1))
      else w1)"
  have l2: "lines w2 = lines w
      @ (if hf = [] then [] else [has_field_line (indent w) (sort (map literal_both hf))])
      @ (if cf = [] then [] else [clear_field_line (indent w) (sort (map literal_both cf))])"
    and i2: "indent w2 = indent w"
    by (simp_all add: w2_def w1_def has_field_line_def clear_field_line_def)
  show ?thesis
  proof (cases "hf = [] \<and> cf = [] \<and> wo_fields desc = []")
    case True
    then show ?thesis
      unfolding write_stringly_typed_fields_def stringly_lines_def hf_def cf_def
      by (simp add: Let_def)
  next
    case False
    then have eq: "write_stringly_typed_fields desc w = fold ?step (sort (wo_fields desc)) w2"
      unfolding write_stringly_typed_fields_def w2_def w1_def cf_def hf_def
      by (simp add: Let_def split_def cong: if_cong)
    have "lines (write_stringly_typed_fields desc w) =
        lines w2 @ concat (map (?g (indent w2)) (sort (wo_fields desc)))"
      unfolding eq by (rule loop)
    then show ?thesis
      unfolding l2 i2 by (simp add: stringly_lines_def Let_def hf_def cf_def)
  qed
qed

subsection \<open>Sorting the literals sorts the names\<close>

lemma identifier_char_above_quote: "identifier_char c \<Longrightarrow> CHR 0x22 < c"
  by (auto simp: identifier_char_def less_char_def less_eq_char_def)

lemma less_append_quote:
  assumes "\<forall>c \<in> set a. CHR 0x22 < c" and "\<forall>c \<in> set b. CHR 0x22 < c"
  shows "(a @ CHR 0x22 # x < b @ CHR 0x22 # y) = (a < b \<or> (a = b \<and> x < y))"
  using assms
proof (induction a arbitrary: b)
  case Nil
  then show ?case by (cases b) auto
next
  case (Cons c a)
  show ?case
  proof (cases b)
    case Nil
    with Cons.prems show ?thesis by auto
  next
    case (Cons d b')
    with Cons.prems Cons.IH [of b'] show ?thesis by auto
  qed
qed

lemma literal_both_less:
  assumes "is_identifier a" and "is_identifier b"
  shows "(literal_both a < literal_both b) = (a < b)"
proof -
  have a: "\<forall>c \<in> set a. CHR 0x22 < c" and b: "\<forall>c \<in> set b. CHR 0x22 < c"
    using assms by (auto simp: is_identifier_def list_all_iff identifier_char_above_quote)
  have "(literal_both a < literal_both b) =
     (a @ CHR 0x22 # ('',b'' @ [CHR 0x22] @ a @ [CHR 0x22]) < b @ CHR 0x22 # ('',b'' @ [CHR 0x22] @ b @ [CHR 0x22]))"
    by (simp add: literal_both_def)
  also have "\<dots> = (a < b)"
    unfolding less_append_quote [OF a b] by auto
  finally show ?thesis .
qed

lemma literal_both_inj: "literal_both a = literal_both b \<Longrightarrow> a = b"
proof -
  assume eq: "literal_both a = literal_both b"
  then have "length (literal_both a) = length (literal_both b)" by simp
  then have "length a = length b" by (simp add: literal_both_def)
  with eq show ?thesis by (simp add: literal_both_def)
qed

lemma literal_both_le:
  assumes "is_identifier a" and "is_identifier b"
  shows "(literal_both a \<le> literal_both b) = (a \<le> b)"
  using literal_both_less [OF assms] literal_both_inj [of a b]
  by (auto simp: le_less)

lemma sort_map_mono:
  fixes f :: "'a::linorder \<Rightarrow> 'b::linorder"
  assumes "\<And>x y. x \<in> set xs \<Longrightarrow> y \<in> set xs \<Longrightarrow> (f x \<le> f y) = (x \<le> y)"
  shows "sort (map f xs) = map f (sort xs)"
proof (rule properties_for_sort)
  show "mset (map f (sort xs)) = mset (map f xs)" by simp
  have "sorted_wrt (\<lambda>x y. x \<le> y) (sort xs)" by simp
  then have "sorted_wrt (\<lambda>x y. f x \<le> f y) (sort xs)"
    by (rule sorted_wrt_mono_rel [rotated]) (simp add: assms)
  then show "sorted (map f (sort xs))" by (simp add: sorted_map)
qed

lemma sort_literal_both:
  assumes "list_all is_identifier names"
  shows "sort (map literal_both names) = map literal_both (sort names)"
  by (rule sort_map_mono) (use assms in \<open>auto simp: list_all_iff literal_both_le\<close>)

lemma map_fst_sort: "map fst (sort (d :: ('a::linorder \<times> 'b::linorder) list)) = sort (map fst d)"
proof (rule properties_for_sort [symmetric])
  show "mset (map fst (sort d)) = mset (map fst d)" by simp
  have "sorted_wrt (\<lambda>x y. x \<le> y) (sort d)" by simp
  then have "sorted_wrt (\<lambda>x y. fst x \<le> fst y) (sort d)"
    by (rule sorted_wrt_mono_rel [rotated]) (auto simp: less_eq_prod_def)
  then show "sorted (map fst (sort d))" by (simp add: sorted_map)
qed

lemma dict_set_fresh: "k \<notin> set (map fst d) \<Longrightarrow> dict_set k v d = d @ [(k, v)]"
  by (induction d) auto

lemma fold_dict_set_distinct:
  assumes "distinct (map snd xs)" and "set (map snd xs) \<inter> set (map fst d) = {}"
  shows "fold (\<lambda>(idx, oneof) d. dict_set oneof (g idx) d) xs d =
           d @ map (\<lambda>(idx, oneof). (oneof, g idx)) xs"
  using assms
proof (induction xs arbitrary: d)
  case Nil
  then show ?case by simp
next
  case (Cons x xs)
  obtain i n where x: "x = (i, n)" by (cases x)
  from Cons.prems x have fresh: "n \<notin> set (map fst d)" by auto
  have "fold (\<lambda>(idx, oneof) d. dict_set oneof (g idx) d) xs (d @ [(n, g i)]) =
          (d @ [(n, g i)]) @ map (\<lambda>(idx, oneof). (oneof, g idx)) xs"
    using Cons.prems x by (intro Cons.IH) auto
  then show ?case
    by (simp add: x dict_set_fresh [OF fresh])
qed

lemma wo_fields_distinct:
  assumes "distinct (m_oneof_decl desc)"
  shows "wo_fields desc =
     map (\<lambda>(idx, oneof).
            (oneof, map f_name (filter (\<lambda>f. f_oneof_index f = Some (int idx)) (m_field desc))))
       (enumerate 0 (m_oneof_decl desc))"
proof -
  have p: "(\<lambda>f. f_oneof_index f \<noteq> None \<and> f_oneof_index f = Some (int i)) =
           (\<lambda>f. f_oneof_index f = Some (int i))" for i
    by auto
  have "wo_fields desc =
      fold (\<lambda>(idx, oneof) d.
        dict_set oneof
          (map f_name (filter (\<lambda>f. f_oneof_index f = Some (int idx)) (m_field desc))) d)
       (enumerate 0 (m_oneof_decl desc)) []"
    unfolding wo_fields_def p ..
  also have "\<dots> = [] @ map (\<lambda>(idx, oneof).
            (oneof, map f_name (filter (\<lambda>f. f_oneof_index f = Some (int idx)) (m_field desc))))
       (enumerate 0 (m_oneof_decl desc))"
    by (rule fold_dict_set_distinct) (simp_all add: assms)
  finally show ?thesis by simp
qed

subsection \<open>The members of the \<open>HasField\<close> union\<close>

lemma hf_fields_set:
  "set (hf_fields file desc) =
     {f_name f | f. f \<in> set (m_field desc) \<and>
        (f_oneof_index f \<noteq> None
         \<or> (f_label f \<noteq> LABEL_REPEATED \<and> (fd_syntax file \<noteq> ''proto3'' \<or> f_type f = TYPE_MESSAGE)))}"
  by (auto simp: hf_fields_def)

text \<open>
  Claim C3. A name is a member of the \<open>HasField\<close> union exactly when it is the name of a
  field that belongs to a oneof, or that is not repeated and (the syntax of the file is not
  \<open>proto3\<close> or the field is a message), or when it is the name of a oneof group. When there
  is such a name, the first line the accessors add is the \<open>HasField\<close> signature, whose
  union holds for each member \<open>n\<close> the two literals \<open>u"n",b"n"\<close>; when there is none, no
  \<open>HasField\<close> signature is written.
\<close>

theorem has_field_union:
  "(n \<in> set (hf_fields (fd w) desc @ map fst (wo_fields desc)) \<longleftrightarrow>
      (\<exists>f \<in> set (m_field desc). f_name f = n \<and>
         (f_oneof_index f \<noteq> None
          \<or> (f_label f \<noteq> LABEL_REPEATED
              \<and> (fd_syntax (fd w) \<noteq> ''proto3'' \<or> f_type f = TYPE_MESSAGE))))
      \<or> n \<in> set (m_oneof_decl desc))
   \<and> (hf_fields (fd w) desc @ map fst (wo_fields desc) \<noteq> [] \<longrightarrow>
        (\<exists>rest. lines (write_stringly_typed_fields desc w) =
           lines w @
           has_field_line (indent w)
             (sort (map literal_both (hf_fields (fd w) desc @ map fst (wo_fields desc)))) # rest))
   \<and> (hf_fields (fd w) desc @ map fst (wo_fields desc) = [] \<longrightarrow>
        lines (write_stringly_typed_fields desc w) =
          lines w @ (if cf_fields desc = [] then []
                     else [clear_field_line (indent w) (sort (map literal_both (cf_fields desc)))]))"
proof (intro conjI impI)
  show "n \<in> set (hf_fields (fd w) desc @ map fst (wo_fields desc)) \<longleftrightarrow>
      (\<exists>f \<in> set (m_field desc). f_name f = n \<and>
         (f_oneof_index f \<noteq> None
          \<or> (f_label f \<noteq> LABEL_REPEATED
              \<and> (fd_syntax (fd w) \<noteq> ''proto3'' \<or> f_type f = TYPE_MESSAGE))))
      \<or> n \<in> set (m_oneof_decl desc)"
    using wo_fields_keys [of desc] by (auto simp: hf_fields_set)
next
  assume "hf_fields (fd w) desc @ map fst (wo_fields desc) \<noteq> []"
  then show "\<exists>rest. lines (write_stringly_typed_fields desc w) =
           lines w @
           has_field_line (indent w)
             (sort (map literal_both (hf_fields (fd w) desc @ map fst (wo_fields desc)))) # rest"
    by (auto simp: write_stringly_typed_fields_lines stringly_lines_def Let_def)
next
  assume "hf_fields (fd w) desc @ map fst (wo_fields desc) = []"
  then show "lines (write_stringly_typed_fields desc w) =
          lines w @ (if cf_fields desc = [] then []
                     else [clear_field_line (indent w) (sort (map literal_both (cf_fields desc)))])"
    by (simp add: write_stringly_typed_fields_lines stringly_lines_def Let_def)
qed

lemma oneof_message_wo_fields: "wo_fields oneof_message = [(''g'', [''b'', ''a''])]"
  by (simp add: wo_fields_def oneof_message_def)

lemma oneof_message_hf_fields: "hf_fields (fd oneof_writer) oneof_message = [''b'', ''a'']"
  by (simp add: hf_fields_def oneof_message_def oneof_writer_def oneof_file_def PkgWriter_init_def
      LABEL_REPEATED_def type_tags)

theorem has_field_union_witness:
  \<open>hf_fields (fd oneof_writer) oneof_message @ map fst (wo_fields oneof_message) = [''b'', ''a'', ''g'']
   \<and> (\<exists>rest. lines (write_stringly_typed_fields oneof_message oneof_writer) =
         lines oneof_writer @
         ''def HasField(self, field_name: typing_extensions___Literal[u"a",b"a",u"b",b"b",u"g",b"g"]) -> builtin___bool: ...''
         # rest)
   \<and> ''id'' \<notin> set (hf_fields (fd oneof_writer) oneof_message @ map fst (wo_fields oneof_message))\<close>
proof -
  have hf: "hf_fields (fd oneof_writer) oneof_message @ map fst (wo_fields oneof_message) = [''b'', ''a'', ''g'']"
    by (simp add: oneof_message_wo_fields oneof_message_hf_fields)
  have ind: "indent oneof_writer = []"
    by (simp add: oneof_writer_def PkgWriter_init_def)
  from has_field_union [of "''id''" oneof_writer oneof_message] hf
  have "\<exists>rest. lines (write_stringly_typed_fields oneof_message oneof_writer) =
           lines oneof_writer @
           has_field_line (indent oneof_writer) (sort (map literal_both [''b'', ''a'', ''g''])) # rest"
    by simp
  then have line: \<open>\<exists>rest. lines (write_stringly_typed_fields oneof_message oneof_writer) =
         lines oneof_writer @
         ''def HasField(self, field_name: typing_extensions___Literal[u"a",b"a",u"b",b"b",u"g",b"g"]) -> builtin___bool: ...''
         # rest\<close>
    by (simp add: ind has_field_line_def literal_both_def)
  from hf line show ?thesis by simp
qed

subsection \<open>The order inside the unions\<close>

text \<open>
  Claim C2, as stated, fails: for a oneof group \<open>g\<close> whose members are declared in the
  order \<open>b\<close>, \<open>a\<close>, the \<open>WhichOneof\<close> signature lists \<open>"b","a"\<close>, which is not sorted.
\<close>

theorem which_oneof_members_unsorted:
  \<open>wo_fields oneof_message = [(''g'', [''b'', ''a''])]
   \<and> \<not> sorted [''b'', ''a'']
   \<and> last (lines (write_stringly_typed_fields oneof_message oneof_writer)) =
       ''def WhichOneof(self, oneof_group: typing_extensions___Literal[u"g",b"g"]) -> typing_extensions___Literal["b","a"]: ...''\<close>
proof -
  have ind: "indent oneof_writer = []"
    by (simp add: oneof_writer_def PkgWriter_init_def)
  have "last (lines (write_stringly_typed_fields oneof_message oneof_writer)) =
      which_oneof_line [] ''g'' [''b'', ''a'']"
    by (simp add: write_stringly_typed_fields_lines stringly_lines_def Let_def ind
        oneof_message_wo_fields)
  then show ?thesis
    by (simp add: oneof_message_wo_fields which_oneof_line_def literal_both_def literal_str_def)
qed

text \<open>
  Claim C2, amended. The lines the accessors add are the \<open>HasField\<close> signature, the
  \<open>ClearField\<close> signature and one \<open>WhichOneof\<close> signature per oneof group, where each is
  present. For names that are identifiers, the \<open>HasField\<close> and \<open>ClearField\<close> unions list
  their names in lexicographic order, and the \<open>WhichOneof\<close> signatures come in the
  lexicographic order of the group names. The union a \<open>WhichOneof\<close> signature returns lists
  the members of the group in the order the fields are declared in the message.
\<close>

theorem literal_unions_order:
  assumes "list_all is_identifier (cf_fields desc @ m_oneof_decl desc)"
    and "distinct (m_oneof_decl desc)"
  shows "lines (write_stringly_typed_fields desc w) = lines w @ stringly_lines (indent w) (fd w) desc
   \<and> sort (map literal_both (hf_fields (fd w) desc @ map fst (wo_fields desc))) =
       map literal_both (sort (hf_fields (fd w) desc @ map fst (wo_fields desc)))
   \<and> sort (map literal_both (cf_fields desc @ map fst (wo_fields desc))) =
       map literal_both (sort (cf_fields desc @ map fst (wo_fields desc)))
   \<and> map fst (sort (wo_fields desc)) = sort (m_oneof_decl desc)
   \<and> wo_fields desc =
       map (\<lambda>(idx, oneof).
              (oneof, map f_name (filter (\<lambda>f. f_oneof_index f = Some (int idx)) (m_field desc))))
         (enumerate 0 (m_oneof_decl desc))"
proof -
  have wo: "wo_fields desc =
       map (\<lambda>(idx, oneof).
              (oneof, map f_name (filter (\<lambda>f. f_oneof_index f = Some (int idx)) (m_field desc))))
         (enumerate 0 (m_oneof_decl desc))"
    using assms(2) by (rule wo_fields_distinct)
  have keys: "map fst (wo_fields desc) = m_oneof_decl desc"
  proof -
    have "map fst (map (\<lambda>(idx, oneof). (oneof, g idx)) xs) = map snd xs"
      for g :: "nat \<Rightarrow> string list" and xs :: "(nat \<times> string) list"
      by (induction xs) auto
    then have "map fst (wo_fields desc) = map snd (enumerate 0 (m_oneof_decl desc))"
      unfolding wo .
    then show ?thesis by (simp add: map_snd_enumerate)
  qed
  have hf_sub: "set (hf_fields (fd w) desc) \<subseteq> set (cf_fields desc)"
    by (auto simp: hf_fields_def cf_fields_def)
  have cf_ok: "list_all is_identifier (cf_fields desc @ map fst (wo_fields desc))"
    using assms(1) by (simp add: keys)
  have hf_ok: "list_all is_identifier (hf_fields (fd w) desc @ map fst (wo_fields desc))"
    using assms(1) hf_sub by (auto simp: keys list_all_iff)
  show ?thesis
  proof (intro conjI)
    show "lines (write_stringly_typed_fields desc w) =
        lines w @ stringly_lines (indent w) (fd w) desc"
      by (rule write_stringly_typed_fields_lines)
    show "sort (map literal_both (hf_fields (fd w) desc @ map fst (wo_fields desc))) =
       map literal_both (sort (hf_fields (fd w) desc @ map fst (wo_fields desc)))"
      by (rule sort_literal_both [OF hf_ok])
    show "sort (map literal_both (cf_fields desc @ map fst (wo_fields desc))) =
       map literal_both (sort (cf_fields desc @ map fst (wo_fields desc)))"
      by (rule sort_literal_both [OF cf_ok])
    show "map fst (sort (wo_fields desc)) = sort (m_oneof_decl desc)"
      by (simp only: map_fst_sort keys)
    show "wo_fields desc =
       map (\<lambda>(idx, oneof).
              (oneof, map f_name (filter (\<lambda>f. f_oneof_index f = Some (int idx)) (m_field desc))))
         (enumerate 0 (m_oneof_decl desc))"
      by (rule wo)
  qed
qed

theorem literal_unions_order_witness:
  \<open>list_all is_identifier (cf_fields oneof_message @ m_oneof_decl oneof_message)
   \<and> distinct (m_oneof_decl oneof_message)
   \<and> lines (write_stringly_typed_fields oneof_message oneof_writer) =
       [''def HasField(self, field_name: typing_extensions___Literal[u"a",b"a",u"b",b"b",u"g",b"g"]) -> builtin___bool: ...'',
        ''def ClearField(self, field_name: typing_extensions___Literal[u"a",b"a",u"b",b"b",u"class",b"class",u"g",b"g",u"id",b"id"]) -> None: ...'',
        ''def WhichOneof(self, oneof_group: typing_extensions___Literal[u"g",b"g"]) -> typing_extensions___Literal["b","a"]: ...'']\<close>
proof -
  have a: "list_all is_identifier (cf_fields oneof_message @ m_oneof_decl oneof_message)"
    by (simp add: cf_fields_def oneof_message_def is_identifier_def identifier_char_def)
  have b: "distinct (m_oneof_decl oneof_message)"
    by (simp add: oneof_message_def)
  have cf: "cf_fields oneof_message = [''id'', ''class'', ''b'', ''a'']"
    by (simp add: cf_fields_def oneof_message_def)
  have w: "indent oneof_writer = []" "lines oneof_writer = []"
    by (simp_all add: oneof_writer_def PkgWriter_init_def)
  from literal_unions_order [OF a b, of oneof_writer]
  have "lines (write_stringly_typed_fields oneof_message oneof_writer) =
          lines oneof_writer @ stringly_lines (indent oneof_writer) (fd oneof_writer) oneof_message"
    by blast
  then have \<open>lines (write_stringly_typed_fields oneof_message oneof_writer) =
       [''def HasField(self, field_name: typing_extensions___Literal[u"a",b"a",u"b",b"b",u"g",b"g"]) -> builtin___bool: ...'',
        ''def ClearField(self, field_name: typing_extensions___Literal[u"a",b"a",u"b",b"b",u"class",b"class",u"g",b"g",u"id",b"id"]) -> None: ...'',
        ''def WhichOneof(self, oneof_group: typing_extensions___Literal[u"g",b"g"]) -> typing_extensions___Literal["b","a"]: ...'']\<close>
    by (simp add: w stringly_lines_def Let_def oneof_message_wo_fields oneof_message_hf_fields cf
        has_field_line_def clear_field_line_def which_oneof_line_def literal_both_def
        literal_str_def)
  with a b show ?thesis by blast
qed

section \<open>Type expressions do not depend on the state of the writer\<close>

lemma silent_refl [simp]: "silent w w"
  by (simp add: silent_def)

lemma silent_trans: "silent w v \<Longrightarrow> silent v u \<Longrightarrow> silent w u"
  by (simp add: silent_def)

lemma silent_do_import [simp]: "silent w (snd (do_import path name w))"
  by (simp add: silent_def)

lemma silent_builtin [simp]: "silent w (snd (builtin name w))"
  by (simp add: silent_def)

lemma silent_after_builtins [simp]: "silent w (after_builtins w)"
  by (simp add: silent_def after_builtins_def)

lemma import_message_silent:
  "import_message name w = Inr (t, w') \<Longrightarrow> silent w w'"
  by (auto simp: import_message_def Let_def split_def
      split: option.splits if_splits list.splits)

lemma import_message_indep:
  assumes "import_message name w = Inr (t, w')"
    and "fd v = fd w" and "descriptors v = descriptors w"
  shows "\<exists>v'. import_message name v = Inr (t, v')"
  using assms
  by (auto simp: import_message_def Let_def split_def
      split: option.splits if_splits list.splits)

lemma do_import_pair_silent: "do_import path name w = (t, w') \<Longrightarrow> silent w w'"
  using silent_do_import [of w path name] by simp

lemma do_import_pair_indep: "do_import path name w = (t, w') \<Longrightarrow> \<exists>v'. do_import path name v = (t, v')"
  by (auto simp: do_import_def Let_def)

lemma python_type_mapping_silent:
  assumes "(k, g) \<in> set (python_type_mapping b_float b_int b_bool b_bytes field)"
    and "g v = Inr (t, v')"
  shows "silent v v'"
  using assms
  unfolding python_type_mapping_def
  by (auto dest: import_message_silent do_import_pair_silent)

lemma python_type_mapping_indep:
  assumes "(k, g) \<in> set (python_type_mapping b_float b_int b_bool b_bytes field)"
    and "g w = Inr (t, w')"
    and "fd v = fd w" and "descriptors v = descriptors w"
  shows "\<exists>v'. g v = Inr (t, v')"
  using assms
  unfolding python_type_mapping_def
  by (auto dest: import_message_indep do_import_pair_indep)

lemma python_type_silent:
  assumes "python_type field w = Inr (t, w')"
  shows "silent w w'"
proof -
  from assms obtain g where
    g: "map_of (python_type_mapping ''builtin___float'' ''builtin___int'' ''builtin___bool''
                     ''builtin___bytes'' field) (f_type field) = Some g"
    and r: "g (after_builtins w) = Inr (t, w')"
    by (auto simp: python_type_unfold split: option.splits)
  from map_of_SomeD [OF g] r have "silent (after_builtins w) w'"
    by (rule python_type_mapping_silent)
  with silent_after_builtins [of w] show ?thesis by (rule silent_trans)
qed

lemma python_type_indep:
  assumes "python_type field w = Inr (t, w')"
    and "fd v = fd w" and "descriptors v = descriptors w"
  shows "\<exists>v'. python_type field v = Inr (t, v')"
proof -
  from assms(1) obtain g where
    g: "map_of (python_type_mapping ''builtin___float'' ''builtin___int'' ''builtin___bool''
                     ''builtin___bytes'' field) (f_type field) = Some g"
    and r: "g (after_builtins w) = Inr (t, w')"
    by (auto simp: python_type_unfold split: option.splits)
  have a: "fd (after_builtins v) = fd (after_builtins w)"
    "descriptors (after_builtins v) = descriptors (after_builtins w)"
    using assms(2,3) silent_after_builtins [of v] silent_after_builtins [of w]
    by (simp_all add: silent_def)
  from python_type_mapping_indep [OF map_of_SomeD [OF g] r a]
  obtain v' where "g (after_builtins v) = Inr (t, v')" by blast
  with g show ?thesis by (simp add: python_type_unfold)
qed


section \<open>Repeated fields: mappings and sequences\<close>

lemma python_type_at:
  assumes "python_type field w = Inr (t, w')" and "silent w v"
  obtains v' where "python_type field v = Inr (t, v')" and "silent v v'"
proof -
  from assms(2) have "fd v = fd w" "descriptors v = descriptors w"
    by (simp_all add: silent_def)
  from python_type_indep [OF assms(1) this] obtain v' where v': "python_type field v = Inr (t, v')"
    by blast
  from python_type_silent [OF v'] v' that show ?thesis by blast
qed

lemma silent_write_line:
  "silent w v \<Longrightarrow> lines (write_line l v) = lines w @ [if l = [] then [] else indent w @ l]"
  by (simp add: silent_def)












section \<open>The output does not depend on the order of the sets\<close>

lemma same_set_mset: "same_set xs ys \<Longrightarrow> mset xs = mset ys"
  using set_eq_iff_mset_eq_distinct [of xs ys] by (simp add: same_set_def)

lemma same_set_sort:
  fixes xs ys :: "'a::linorder list"
  assumes "same_set xs ys"
  shows "sort xs = sort ys"
proof (rule properties_for_sort)
  show "mset (sort ys) = mset xs" using same_set_mset [OF assms] by simp
  show "sorted (sort ys)" by simp
qed

lemma same_set_refl: "distinct xs \<Longrightarrow> same_set xs xs"
  by (simp add: same_set_def)

lemma same_set_add: "same_set xs ys \<Longrightarrow> same_set (set_add x xs) (set_add x ys)"
  by (auto simp: same_set_def set_add_def)

lemma same_set_empty: "same_set xs ys \<Longrightarrow> (xs = []) = (ys = [])"
  by (auto simp: same_set_def)

lemma insort_key_map:
  "(\<And>x. f (g x) = f x) \<Longrightarrow> insort_key f (g x) (map g ys) = map g (insort_key f x ys)"
  by (induction ys) auto

lemma sort_key_map:
  assumes "\<And>x. f (g x) = f x"
  shows "sort_key f (map g xs) = map g (sort_key f xs)"
  using assms by (induction xs) (simp_all add: insort_key_map)

lemma sort_key_unique:
  assumes m: "mset xs = mset ys" and d: "distinct xs" and inj: "inj_on f (set xs)"
  shows "sort_key f xs = sort_key f ys"
proof (rule properties_for_sort_key)
  show "mset (sort_key f ys) = mset xs" using m by simp
  show "sorted (map f (sort_key f ys))" by simp
  fix k assume "k \<in> set (sort_key f ys)"
  from m have s: "set xs = set ys" by (rule mset_eq_setD)
  have one: "filter (\<lambda>x. f k = f x) zs = filter (\<lambda>x. k = x) zs" if "set zs = set xs" for zs
    using inj that \<open>k \<in> set (sort_key f ys)\<close> s
    by (intro filter_cong) (auto simp: inj_on_def)
  have rep: "filter (\<lambda>x. k = x) zs = replicate (count (mset zs) k) k" for zs :: "'a list"
    by (induction zs) auto
  have "filter (\<lambda>x. k = x) (sort_key f ys) = filter (\<lambda>x. k = x) xs"
    unfolding rep using m by simp
  then show "filter (\<lambda>x. f k = f x) (sort_key f ys) = filter (\<lambda>x. f k = f x) xs"
    using one [of "sort_key f ys"] one [of xs] s by simp
qed


lemma map_of_defaultdict_add:
  "map_of (defaultdict_add k x d) =
     (map_of d)(k \<mapsto> set_add x (case map_of d k of None \<Rightarrow> [] | Some xs \<Rightarrow> xs))"
proof (induction d)
  case Nil
  then show ?case by (simp add: set_add_def)
next
  case (Cons a d)
  obtain k' xs where a: "a = (k', xs)" by (cases a)
  show ?case
  proof (cases "k = k'")
    case True
    with a show ?thesis by (simp add: fun_eq_iff)
  next
    case False
    with a Cons show ?thesis by (auto simp: fun_eq_iff)
  qed
qed

lemma same_dict_add:
  assumes "same_dict d e"
  shows "same_dict (defaultdict_add k x d) (defaultdict_add k x e)"
proof -
  from assms have r: "rel_option same_set (map_of d j) (map_of e j)" for j
    by (simp add: same_dict_def)
  have "rel_option same_set (map_of (defaultdict_add k x d) j) (map_of (defaultdict_add k x e) j)"
    for j
  proof (cases "j = k")
    case True
    have "same_set (set_add x (case map_of d k of None \<Rightarrow> [] | Some xs \<Rightarrow> xs))
                   (set_add x (case map_of e k of None \<Rightarrow> [] | Some xs \<Rightarrow> xs))"
      using r [of k]
      by (intro same_set_add) (auto simp: same_set_def split: option.splits)
    with True show ?thesis by (simp add: map_of_defaultdict_add)
  next
    case False
    with r [of j] show ?thesis by (simp add: map_of_defaultdict_add)
  qed
  with assms show ?thesis
    by (simp add: same_dict_def defaultdict_add_distinct_keys)
qed

lemma import_block_sort: "import_block (k, sort items) = import_block (k, items)"
  by (simp add: import_block_def sorted_sort_id)

lemma same_dict_blocks:
  assumes "same_dict d e"
  shows "map import_block (sort_key fst d) = map import_block (sort_key fst e)"
proof -
  define norm :: "string \<times> (string \<times> string) list \<Rightarrow> string \<times> (string \<times> string) list"
    where "norm = (\<lambda>(k, items). (k, sort items))"
  have fst_norm: "fst (norm p) = fst p" for p
    by (simp add: norm_def split_def)
  have block: "import_block (norm p) = import_block p" for p
    by (cases p) (simp add: norm_def import_block_sort)
  have keys: "map fst (map norm d') = map fst d'" for d'
    by (simp add: fst_norm)
  have look: "map_of (map norm d') = map_option sort \<circ> map_of d'" for d'
    unfolding norm_def by (rule map_of_map)
  have "map_of (map norm d) = map_of (map norm e)"
  proof
    fix k
    from assms have "rel_option same_set (map_of d k) (map_of e k)"
      by (simp add: same_dict_def)
    then have "map_option sort (map_of d k) = map_option sort (map_of e k)"
      by (cases "map_of d k"; cases "map_of e k") (simp_all add: same_set_sort)
    then show "map_of (map norm d) k = map_of (map norm e) k"
      by (simp add: look)
  qed
  moreover have dd: "distinct (map fst (map norm d))" and de: "distinct (map fst (map norm e))"
    using assms unfolding keys by (simp_all add: same_dict_def)
  ultimately have sets: "set (map norm d) = set (map norm e)"
    by (simp add: map_of_inject_set)
  have dist: "distinct (map norm d)" "distinct (map norm e)"
    using dd de by (simp_all only: distinct_map [of fst])
  have "mset (map norm d) = mset (map norm e)"
    using sets dist set_eq_iff_mset_eq_distinct [of "map norm d" "map norm e"] by blast
  moreover have "inj_on fst (set (map norm d))"
    using dd by (simp only: distinct_map [of fst])
  ultimately have "sort_key fst (map norm d) = sort_key fst (map norm e)"
    using dist(1) by (intro sort_key_unique)
  then have "map norm (sort_key fst d) = map norm (sort_key fst e)"
    by (simp add: sort_key_map fst_norm)
  then have "map import_block (map norm (sort_key fst d)) = map import_block (map norm (sort_key fst e))"
    by simp
  then show ?thesis
    by (simp add: comp_def block)
qed

lemma same_state_write:
  assumes "same_state w v"
  shows "PkgWriter_write w = PkgWriter_write v"
proof -
  from assms have "same_dict (imports' w) (imports' v)"
    by (simp add: same_state_def)
  then have i: "write_imports w = write_imports v"
    unfolding write_imports_def by (simp only: same_dict_blocks)
  from assms have b: "sort (builtin_vars w) = sort (builtin_vars v)"
    and p: "sort (py2_builtin_vars w) = sort (py2_builtin_vars v)"
    and e: "(py2_builtin_vars w = []) = (py2_builtin_vars v = [])"
    by (simp_all add: same_state_def same_set_sort same_set_empty)
  have a: "write_aliases w = write_aliases v"
    unfolding write_aliases_def b p using e by simp
  from assms have "lines w = lines v" by (simp add: same_state_def)
  with i a show ?thesis by (simp add: PkgWriter_write_def)
qed

text \<open>
  Claim C10. The only values of a run whose order is not fixed by the input are the
  enumerations of the writer's sets \<open>imports[...]\<close>, \<open>locals\<close>, \<open>builtin_vars\<close> and
  \<open>py2_builtin_vars\<close> and of the keys of \<open>imports\<close>. Two writers that agree up to these
  orders stay so under every primitive operation of the writer, get the same alias from
  each, and \<open>write\<close> renders them to the same text: the file content, the header followed
  by that text, is the same in both runs.
\<close>

theorem output_deterministic:
  assumes "same_state w v"
  shows "PkgWriter_write w = PkgWriter_write v
    \<and> HEADER @ PkgWriter_write w = HEADER @ PkgWriter_write v
    \<and> fst (do_import path name w) = fst (do_import path name v)
    \<and> same_state (snd (do_import path name w)) (snd (do_import path name v))
    \<and> fst (builtin name w) = fst (builtin name v)
    \<and> same_state (snd (builtin name w)) (snd (builtin name v))
    \<and> same_state (write_line l w) (write_line l v)
    \<and> same_state (indent_enter w) (indent_enter v)
    \<and> same_state (indent_exit w) (indent_exit v)
    \<and> same_state (w\<lparr>locals := set_add name (locals w)\<rparr>) (v\<lparr>locals := set_add name (locals v)\<rparr>)"
proof -
  have "same_state (snd (do_import path name w)) (snd (do_import path name v))"
    using assms by (simp add: same_state_def do_import_def Let_def same_dict_add)
  moreover have "same_state (snd (builtin name w)) (snd (builtin name v))"
    using assms by (simp add: same_state_def builtin_def same_set_add)
  moreover have "same_state (write_line l w) (write_line l v)"
    using assms by (simp add: same_state_def write_line_def)
  moreover have "same_state (indent_enter w) (indent_enter v)"
    "same_state (indent_exit w) (indent_exit v)"
    using assms by (simp_all add: same_state_def indent_enter_def indent_exit_def)
  moreover have "same_state (w\<lparr>locals := set_add name (locals w)\<rparr>) (v\<lparr>locals := set_add name (locals v)\<rparr>)"
    using assms by (simp add: same_state_def same_set_add)
  ultimately show ?thesis
    using same_state_write [OF assms] by simp
qed

theorem output_deterministic_witness:
  "same_state order_writer_a order_writer_b
   \<and> imports' order_writer_a \<noteq> imports' order_writer_b
   \<and> builtin_vars order_writer_a \<noteq> builtin_vars order_writer_b
   \<and> PkgWriter_write order_writer_a = PkgWriter_write order_writer_b"
proof -
  have s: "same_state order_writer_a order_writer_b"
    by (simp add: same_state_def order_writer_a_def order_writer_b_def same_dict_def
        same_set_def PkgWriter_init_def) (auto simp: rel_option_iff)
  have d: "imports' order_writer_a \<noteq> imports' order_writer_b"
    "builtin_vars order_writer_a \<noteq> builtin_vars order_writer_b"
    by (simp_all add: order_writer_a_def order_writer_b_def)
  from output_deterministic [OF s] have "PkgWriter_write order_writer_a = PkgWriter_write order_writer_b"
    by blast
  with s d show ?thesis by blast
qed

end
